theory Spec2Isabelle
  imports Main "HOL-Library.AList"
begin

section \<open>Strings\<close>

text \<open>
  Python strings are modelled as \<open>string\<close> (a list of 8-bit characters).  The source
  uses three operations on them that are not in the HOL library in executable form:
  \<open>str.lower()\<close>, the ordering \<open><\<close> (lexicographic on code points) and the substring
  test \<open>a in b\<close>.  \<open>lower\<close> maps the ASCII capitals to small letters and leaves every
  other character alone.
\<close>

definition lower_char :: "char \<Rightarrow> char" where
  "lower_char c =
     (let n = (of_char c :: nat) in if 65 \<le> n \<and> n \<le> 90 then char_of (n + 32) else c)"

definition lower :: "string \<Rightarrow> string" where
  "lower s = map lower_char s"

fun str_lt :: "string \<Rightarrow> string \<Rightarrow> bool" where
  "str_lt [] [] = False"
| "str_lt [] (y # ys) = True"
| "str_lt (x # xs) [] = False"
| "str_lt (x # xs) (y # ys) = ((of_char x :: nat) < of_char y \<or> (x = y \<and> str_lt xs ys))"

fun startswith :: "string \<Rightarrow> string \<Rightarrow> bool" where
  "startswith s [] = True"
| "startswith [] (p # ps) = False"
| "startswith (x # xs) (p # ps) = (x = p \<and> startswith xs ps)"

text \<open>\<open>str_contains p s\<close> is Python's \<open>p in s\<close> for two strings.\<close>

fun str_contains :: "string \<Rightarrow> string \<Rightarrow> bool" where
  "str_contains p [] = (p = [])"
| "str_contains p (x # xs) = (startswith (x # xs) p \<or> str_contains p xs)"

section \<open>The parsed Doxygen XML\<close>

text \<open>
  What the source reads from the XML file of a compound through \<open>BeautifulSoup\<close>,
  which is a library and not part of the program.  An attribute or a tag that may be
  missing is an \<open>option\<close>.  A \<open>memberdef\<close> has its \<open>id\<close> attribute and the \<open>file\<close>
  attribute of its \<open>location\<close> tag (\<open>None\<close> without the tag, \<open>Some None\<close> when the tag
  has no such attribute); a \<open>ref\<close> of the program listing has its \<open>refid\<close> and
  \<open>kindref\<close> attributes.
\<close>

record memberdef =
  memberdef_id :: "string option"
  memberdef_location :: "string option option"

record ref_tag =
  ref_refid :: "string option"
  ref_kindref :: "string option"

text \<open>
  The \<open>compounddef\<close> element: the \<open>refid\<close> attributes of its \<open>innerclass\<close> and
  \<open>innernamespace\<close> children, the \<open>id\<close> attributes of its \<open>memberdef\<close> children, the
  \<open>memberdef\<close> children of each of its \<open>sectiondef\<close> children, the \<open>file\<close> attribute
  of its first \<open>location\<close> tag, and the \<open>ref\<close> tags of its first \<open>programlisting\<close>.
\<close>

record compounddef =
  innerclasses :: "string option list"
  innernamespaces :: "string option list"
  memberdefs :: "string option list"
  sectiondefs :: "memberdef list list"
  location_tag :: "string option option"
  programlisting :: "ref_tag list option"

text \<open>
  The outcome of \<open>utils.nodeCompoundXMLContents\<close> followed by parsing: no contents,
  contents that the parser rejects, or a document, whose \<open>doxygen.compounddef\<close> may be
  missing.
\<close>

datatype xml_contents = NoContents | Unparsable | Parsed "compounddef option"

section \<open>Nodes\<close>

text \<open>
  An \<open>ExhaleNode\<close> object.  Nodes are mutable and shared between many lists, so every
  reference to a node is an address (a \<open>nat\<close>) into the store of the root object, and
  Python's object identity is equality of addresses.  The fields \<open>namespaces_used\<close>,
  \<open>location\<close> and \<open>program_listing\<close> are the ones the constructor creates for nodes
  of kind \<open>file\<close>, and the passes read them from the nodes in \<open>self.files\<close> only;
  the lists \<open>includes\<close> and \<open>included_by\<close> of a file, which no pass reads, are left
  out.  \<open>soup\<close> and \<open>def_in_file_location\<close> are the attributes that
  \<open>discoverAllNodes\<close> adds to file nodes: \<open>None\<close> as long as the attribute does not
  exist.
\<close>

record ExhaleNode =
  name :: string
  kind :: string
  refid :: string
  def_in_file :: "nat option"
  children :: "nat list"
  parent :: "nat option"
  namespaces_used :: "nat list"
  location :: string
  program_listing :: "string list"
  soup :: "compounddef option option"
  def_in_file_location :: "string option option"

definition ExhaleNode_init :: "string \<Rightarrow> string \<Rightarrow> string \<Rightarrow> ExhaleNode" where
  "ExhaleNode_init nm kd rid =
     \<lparr> name = nm, kind = kd, refid = rid, def_in_file = None, children = [],
       parent = None, namespaces_used = [], location = [], program_listing = [],
       soup = None, def_in_file_location = None \<rparr>"

text \<open>\<open>ExhaleNode.__lt__\<close>, branch by branch.\<close>

definition ExhaleNode_lt :: "ExhaleNode \<Rightarrow> ExhaleNode \<Rightarrow> bool" where
  "ExhaleNode_lt self other =
     (if kind self = kind other then str_lt (lower (name self)) (lower (name other))
      else if kind self = ''struct'' \<or> kind self = ''class'' then
        (if kind other \<noteq> ''struct'' \<and> kind other \<noteq> ''class'' then True
         else if kind self = ''struct'' \<and> kind other = ''class'' then True
         else if kind self = ''class'' \<and> kind other = ''struct'' then False
         else str_lt (lower (name self)) (lower (name other)))
      else str_lt (kind self) (kind other))"

definition class_like_kind :: "string \<Rightarrow> bool" where
  "class_like_kind k = (k = ''struct'' \<or> k = ''class'')"

text \<open>
  \<open>list.sort()\<close> and \<open>sorted\<close> are Python built-ins: a stable sort that only calls
  \<open><\<close>.  They are modelled as the stable insertion sort, which places each element
  behind every earlier element that it is not smaller than.
\<close>

fun insort_lt :: "('a \<Rightarrow> 'a \<Rightarrow> bool) \<Rightarrow> 'a \<Rightarrow> 'a list \<Rightarrow> 'a list" where
  "insort_lt lt x [] = [x]"
| "insort_lt lt x (y # ys) = (if lt x y then x # y # ys else y # insort_lt lt x ys)"

definition list_sort :: "('a \<Rightarrow> 'a \<Rightarrow> bool) \<Rightarrow> 'a list \<Rightarrow> 'a list" where
  "list_sort lt xs = foldl (\<lambda>acc x. insort_lt lt x acc) [] xs"

text \<open>Sorting a list of node references in the store \<open>h\<close>.\<close>

definition sort_nodes :: "(nat \<Rightarrow> ExhaleNode) \<Rightarrow> nat list \<Rightarrow> nat list" where
  "sort_nodes h xs = list_sort (\<lambda>a b. ExhaleNode_lt (h a) (h b)) xs"

section \<open>The root object and its store\<close>

datatype error = RuntimeError | AttributeError | TypeError | ValueError | RecursionError

text \<open>
  The diagnostics that report a problem (\<open>exclaimError\<close> with the messages
  \<open>err_dup\<close>, \<open>err_non\<close>, "Conflicting file definition", "Unable to parse file xml"
  and "The doxygen xml output directory is not valid"); a conflict names the node, the
  file it is already assigned to and the file that also claims it.  The calls of
  \<open>exclaimError\<close> that only report progress are left out.
\<close>

datatype diagnostic =
    ConflictingInnerclass nat nat nat
  | MissingRefid string
  | ConflictingFileChild nat nat nat
  | UnparsableFile nat
  | InvalidOutputDirectory

text \<open>
  \<open>ExhaleRoot\<close>: the store of all node objects (\<open>heap\<close>, with \<open>nxt\<close> the next
  unused address), the list of all nodes, the dictionary from refids to nodes (an
  association list in insertion order, as a Python dictionary iterates) and one list
  per kind (\<open>defines'\<close> and \<open>functions'\<close> are the source's \<open>defines\<close> and
  \<open>functions\<close>, which are keywords here).
\<close>

record ExhaleRoot =
  heap :: "nat \<Rightarrow> ExhaleNode"
  nxt :: nat
  all_nodes :: "nat list"
  node_by_refid :: "(string \<times> nat) list"
  class_like :: "nat list"
  defines' :: "nat list"
  enums :: "nat list"
  enum_values :: "nat list"
  functions' :: "nat list"
  dirs :: "nat list"
  files :: "nat list"
  groups :: "nat list"
  namespaces :: "nat list"
  typedefs :: "nat list"
  unions :: "nat list"
  variables :: "nat list"
  diagnostics :: "diagnostic list"

definition ExhaleRoot_init :: ExhaleRoot where
  "ExhaleRoot_init =
     \<lparr> heap = (\<lambda>_. ExhaleNode_init [] [] []), nxt = 0, all_nodes = [], node_by_refid = [],
       class_like = [], defines' = [], enums = [], enum_values = [], functions' = [],
       dirs = [], files = [], groups = [], namespaces = [], typedefs = [], unions = [],
       variables = [], diagnostics = [] \<rparr>"

text \<open>
  Creating a node object: \<open>ExhaleNode(name, kind, refid)\<close> puts the new node at the
  next unused address \<open>nxt r\<close>, which is the reference to it.
\<close>

definition new_node :: "string \<Rightarrow> string \<Rightarrow> string \<Rightarrow> ExhaleRoot \<Rightarrow> ExhaleRoot" where
  "new_node nm kd rid r =
     r\<lparr>heap := (heap r)(nxt r := ExhaleNode_init nm kd rid), nxt := Suc (nxt r)\<rparr>"

text \<open>Assignments to the fields of the node at an address.\<close>

definition set_parent :: "nat \<Rightarrow> nat option \<Rightarrow> ExhaleRoot \<Rightarrow> ExhaleRoot" where
  "set_parent a p r = r\<lparr>heap := (heap r)(a := (heap r a)\<lparr>parent := p\<rparr>)\<rparr>"

definition set_def_in_file :: "nat \<Rightarrow> nat option \<Rightarrow> ExhaleRoot \<Rightarrow> ExhaleRoot" where
  "set_def_in_file a f r = r\<lparr>heap := (heap r)(a := (heap r a)\<lparr>def_in_file := f\<rparr>)\<rparr>"

definition set_children :: "nat \<Rightarrow> nat list \<Rightarrow> ExhaleRoot \<Rightarrow> ExhaleRoot" where
  "set_children a cs r = r\<lparr>heap := (heap r)(a := (heap r a)\<lparr>children := cs\<rparr>)\<rparr>"

definition set_name :: "nat \<Rightarrow> string \<Rightarrow> ExhaleRoot \<Rightarrow> ExhaleRoot" where
  "set_name a nm r = r\<lparr>heap := (heap r)(a := (heap r a)\<lparr>name := nm\<rparr>)\<rparr>"

definition set_location :: "nat \<Rightarrow> string \<Rightarrow> ExhaleRoot \<Rightarrow> ExhaleRoot" where
  "set_location a l r = r\<lparr>heap := (heap r)(a := (heap r a)\<lparr>location := l\<rparr>)\<rparr>"

definition set_program_listing :: "nat \<Rightarrow> string list \<Rightarrow> ExhaleRoot \<Rightarrow> ExhaleRoot" where
  "set_program_listing a ls r =
     r\<lparr>heap := (heap r)(a := (heap r a)\<lparr>program_listing := ls\<rparr>)\<rparr>"

definition set_namespaces_used :: "nat \<Rightarrow> nat list \<Rightarrow> ExhaleRoot \<Rightarrow> ExhaleRoot" where
  "set_namespaces_used a ns r =
     r\<lparr>heap := (heap r)(a := (heap r a)\<lparr>namespaces_used := ns\<rparr>)\<rparr>"

definition set_soup :: "nat \<Rightarrow> compounddef option \<Rightarrow> ExhaleRoot \<Rightarrow> ExhaleRoot" where
  "set_soup a s r = r\<lparr>heap := (heap r)(a := (heap r a)\<lparr>soup := Some s\<rparr>)\<rparr>"

definition set_def_in_file_location :: "nat \<Rightarrow> string option \<Rightarrow> ExhaleRoot \<Rightarrow> ExhaleRoot" where
  "set_def_in_file_location a l r =
     r\<lparr>heap := (heap r)(a := (heap r a)\<lparr>def_in_file_location := Some l\<rparr>)\<rparr>"

definition exclaimError :: "diagnostic \<Rightarrow> ExhaleRoot \<Rightarrow> ExhaleRoot" where
  "exclaimError d r = r\<lparr>diagnostics := diagnostics r @ [d]\<rparr>"

definition append_child :: "nat \<Rightarrow> nat \<Rightarrow> ExhaleRoot \<Rightarrow> ExhaleRoot" where
  "append_child p c r = set_children p (children (heap r p) @ [c]) r"

text \<open>The pair of statements \<open>p.children.append(c); c.parent = p\<close>.\<close>

definition attach :: "nat \<Rightarrow> nat \<Rightarrow> ExhaleRoot \<Rightarrow> ExhaleRoot" where
  "attach p c r = set_parent c (Some p) (append_child p c r)"

section \<open>Discovery\<close>

text \<open>
  \<open>trackNodeIfUnseen\<close>.  The test \<open>node not in self.all_nodes\<close> compares objects:
  \<open>ExhaleNode\<close> defines no \<open>__eq__\<close>, so two nodes are equal only when they are the
  same object, that is, the same address.
\<close>

definition trackNodeIfUnseen :: "nat \<Rightarrow> ExhaleRoot \<Rightarrow> ExhaleRoot" where
  "trackNodeIfUnseen node r =
     (if node \<notin> set (all_nodes r) then
        (let k = kind (heap r node);
             r1 = r\<lparr>all_nodes := all_nodes r @ [node],
                    node_by_refid := AList.update (refid (heap r node)) node (node_by_refid r)\<rparr>
         in if k = ''class'' \<or> k = ''struct'' then r1\<lparr>class_like := class_like r1 @ [node]\<rparr>
            else if k = ''namespace'' then r1\<lparr>namespaces := namespaces r1 @ [node]\<rparr>
            else if k = ''enum'' then r1\<lparr>enums := enums r1 @ [node]\<rparr>
            else if k = ''enumvalue'' then r1\<lparr>enum_values := enum_values r1 @ [node]\<rparr>
            else if k = ''define'' then r1\<lparr>defines' := defines' r1 @ [node]\<rparr>
            else if k = ''file'' then r1\<lparr>files := files r1 @ [node]\<rparr>
            else if k = ''dir'' then r1\<lparr>dirs := dirs r1 @ [node]\<rparr>
            else if k = ''function'' then r1\<lparr>functions' := functions' r1 @ [node]\<rparr>
            else if k = ''variable'' then r1\<lparr>variables := variables r1 @ [node]\<rparr>
            else if k = ''group'' then r1\<lparr>groups := groups r1 @ [node]\<rparr>
            else if k = ''typedef'' then r1\<lparr>typedefs := typedefs r1 @ [node]\<rparr>
            else if k = ''union'' then r1\<lparr>unions := unions r1 @ [node]\<rparr>
            else r1)
      else r)"

text \<open>
  The index, as \<open>discoverAllNodes\<close> reads it from the parsed \<open>index.xml\<close>: for each
  \<open>compound\<close> tag the text of its \<open>name\<close> tag and its \<open>kind\<close> and \<open>refid\<close> attributes,
  each of which may be absent, and the same for each of its \<open>member\<close> tags.
\<close>

record index_member =
  member_name :: "string option"
  member_kind :: "string option"
  member_refid :: "string option"

record index_compound =
  compound_name :: "string option"
  compound_kind :: "string option"
  compound_refid :: "string option"
  compound_members :: "index_member list"

text \<open>The body of the loop over the members of a namespace or file compound.\<close>

definition discover_member :: "string \<Rightarrow> nat \<Rightarrow> index_member \<Rightarrow> ExhaleRoot \<Rightarrow> ExhaleRoot" where
  "discover_member curr_kind curr_node m r =
     (case member_name m of None \<Rightarrow> r | Some child_name \<Rightarrow>
      case member_kind m of None \<Rightarrow> r | Some child_kind \<Rightarrow>
      case member_refid m of None \<Rightarrow> r | Some child_refid \<Rightarrow>
        (let child_node = nxt r;
             r1 = new_node child_name child_kind child_refid r;
             r2 = trackNodeIfUnseen child_node r1;
             r3 = (if curr_kind = ''namespace'' then set_parent child_node (Some curr_node) r2
                   else set_def_in_file child_node (Some curr_node) r2)
         in append_child curr_node child_node r3))"

text \<open>The body of the loop over the compounds of the index.\<close>

definition discover_compound :: "index_compound \<Rightarrow> ExhaleRoot \<Rightarrow> ExhaleRoot" where
  "discover_compound c r =
     (case compound_name c of None \<Rightarrow> r | Some curr_name \<Rightarrow>
      case compound_kind c of None \<Rightarrow> r | Some curr_kind \<Rightarrow>
      case compound_refid c of None \<Rightarrow> r | Some curr_refid \<Rightarrow>
        (let curr_node = nxt r;
             r1 = new_node curr_name curr_kind curr_refid r;
             r2 = trackNodeIfUnseen curr_node r1
         in if curr_kind = ''namespace'' \<or> curr_kind = ''file''
            then fold (discover_member curr_kind curr_node) (compound_members c) r2
            else r2))"

text \<open>
  The first loop of \<open>discoverAllNodes\<close>.  The index is \<open>None\<close> when \<open>index.xml\<close>
  cannot be read or parsed or has no \<open>doxygenindex\<close> root: the source raises
  \<open>RuntimeError\<close>.
\<close>

definition discover_compounds :: "index_compound list \<Rightarrow> ExhaleRoot \<Rightarrow> ExhaleRoot" where
  "discover_compounds cs r = fold discover_compound cs r"

definition discover_index :: "index_compound list option \<Rightarrow> ExhaleRoot \<Rightarrow> error + ExhaleRoot" where
  "discover_index idx r =
     (case idx of None \<Rightarrow> Inl RuntimeError | Some cs \<Rightarrow> Inr (discover_compounds cs r))"

text \<open>Index records with all three fields present, for writing inputs down.\<close>

definition Member :: "string \<Rightarrow> string \<Rightarrow> string \<Rightarrow> index_member" where
  "Member nm kd rid = \<lparr> member_name = Some nm, member_kind = Some kd, member_refid = Some rid \<rparr>"

definition Compound :: "string \<Rightarrow> string \<Rightarrow> string \<Rightarrow> index_member list \<Rightarrow> index_compound" where
  "Compound nm kd rid ms =
     \<lparr> compound_name = Some nm, compound_kind = Some kd, compound_refid = Some rid,
       compound_members = ms \<rparr>"


text \<open>
  The second loop of \<open>discoverAllNodes\<close>, over \<open>self.files\<close>.  \<open>xml\<close> gives the XML
  of a compound by its refid.  The body for one \<open>innerclass\<close> tag:
\<close>

definition discover_innerclass :: "nat \<Rightarrow> string option \<Rightarrow> ExhaleRoot \<Rightarrow> ExhaleRoot" where
  "discover_innerclass f tag r =
     (case tag of None \<Rightarrow> r | Some rid \<Rightarrow>
      case map_of (node_by_refid r) rid of
        None \<Rightarrow> exclaimError (MissingRefid rid) r
      | Some node \<Rightarrow>
         (case def_in_file (heap r node) of
            None \<Rightarrow> set_def_in_file node (Some f) r
          | Some g \<Rightarrow> if g \<noteq> f then exclaimError (ConflictingInnerclass node g f) r else r))"

text \<open>The body for one \<open>memberdef\<close> tag of a file.\<close>

definition discover_memberdef :: "nat \<Rightarrow> string option \<Rightarrow> ExhaleRoot \<Rightarrow> ExhaleRoot" where
  "discover_memberdef f member r =
     (case member of None \<Rightarrow> r | Some rid \<Rightarrow>
      case map_of (node_by_refid r) rid of
        None \<Rightarrow> r
      | Some node \<Rightarrow>
         (case def_in_file (heap r node) of
            None \<Rightarrow> set_def_in_file node (Some f) r
          | Some g \<Rightarrow> r))"

text \<open>The \<open>try\<close> block for a file whose document has a \<open>compounddef\<close>.\<close>

definition discover_file_cdef :: "nat \<Rightarrow> compounddef \<Rightarrow> ExhaleRoot \<Rightarrow> ExhaleRoot" where
  "discover_file_cdef f cdef r =
     (let r1 = fold (discover_innerclass f) (innerclasses cdef) r;
          r2 = fold (discover_memberdef f) (memberdefs cdef) r1
      in set_def_in_file_location f
           (case location_tag cdef of None \<Rightarrow> None | Some a \<Rightarrow> a) r2)"

text \<open>
  The loop itself.  A file without contents is skipped; contents that do not parse end
  the loop (\<open>break\<close>); a document without \<open>compounddef\<close> makes the \<open>try\<close> block
  raise at once, which is caught, so that only \<open>f.soup\<close> has been assigned.
\<close>

fun discover_files :: "(string \<Rightarrow> xml_contents) \<Rightarrow> nat list \<Rightarrow> ExhaleRoot \<Rightarrow> ExhaleRoot" where
  "discover_files xml [] r = r"
| "discover_files xml (f # fs) r =
     (case xml (refid (heap r f)) of
        NoContents \<Rightarrow> discover_files xml fs r
      | Unparsable \<Rightarrow> exclaimError (UnparsableFile f) r
      | Parsed s \<Rightarrow>
         (case s of
            None \<Rightarrow> discover_files xml fs (set_soup f s r)
          | Some cdef \<Rightarrow> discover_files xml fs (discover_file_cdef f cdef (set_soup f s r))))"

text \<open>
  The third loop, over \<open>self.namespaces\<close>.  The body for an \<open>innerclass\<close> or an
  \<open>innernamespace\<close> tag of the namespace:
\<close>

definition discover_inner :: "nat \<Rightarrow> string option \<Rightarrow> ExhaleRoot \<Rightarrow> ExhaleRoot" where
  "discover_inner nspace tag r =
     (case tag of None \<Rightarrow> r | Some rid \<Rightarrow>
      case map_of (node_by_refid r) rid of
        None \<Rightarrow> r
      | Some node \<Rightarrow>
          if node \<notin> set (children (heap r nspace))
          then set_parent node (Some nspace) (append_child nspace node r)
          else r)"

text \<open>
  The loop \<open>for f in self.files\<close> that looks for the file at the location \<open>filedef\<close>.
  Reading \<open>f.def_in_file_location\<close> of a file that never got the attribute raises
  \<open>AttributeError\<close>.
\<close>

fun assign_file_at :: "string \<Rightarrow> nat \<Rightarrow> nat list \<Rightarrow> ExhaleRoot \<Rightarrow> error + ExhaleRoot" where
  "assign_file_at filedef node [] r = Inr r"
| "assign_file_at filedef node (f # fs) r =
     (case def_in_file_location (heap r f) of
        None \<Rightarrow> Inl AttributeError
      | Some l \<Rightarrow>
          if Some filedef = l
          then Inr (if node \<notin> set (children (heap (set_def_in_file node (Some f) r) f))
                    then append_child f node (set_def_in_file node (Some f) r)
                    else set_def_in_file node (Some f) r)
          else assign_file_at filedef node fs r)"

text \<open>The body for one \<open>memberdef\<close> of a \<open>sectiondef\<close> of the namespace.\<close>

definition discover_section_member :: "memberdef \<Rightarrow> ExhaleRoot \<Rightarrow> error + ExhaleRoot" where
  "discover_section_member m r =
     (case memberdef_id m of None \<Rightarrow> Inr r | Some rid \<Rightarrow>
      case map_of (node_by_refid r) rid of
        None \<Rightarrow> Inr r
      | Some node \<Rightarrow>
         (case memberdef_location m of
            None \<Rightarrow> Inr r
          | Some None \<Rightarrow> Inr r
          | Some (Some filedef) \<Rightarrow> assign_file_at filedef node (files r) r))"

text \<open>A loop whose body may raise: the first error ends it.\<close>

fun fold_err :: "('a \<Rightarrow> 's \<Rightarrow> error + 's) \<Rightarrow> 'a list \<Rightarrow> 's \<Rightarrow> error + 's" where
  "fold_err f [] s = Inr s"
| "fold_err f (x # xs) s = (case f x s of Inl e \<Rightarrow> Inl e | Inr s' \<Rightarrow> fold_err f xs s')"

text \<open>
  The body for one namespace.  Contents that do not parse are skipped (\<open>continue\<close>);
  a document without \<open>compounddef\<close> raises \<open>AttributeError\<close>, which nothing catches.
\<close>

definition discover_namespace :: "(string \<Rightarrow> xml_contents) \<Rightarrow> nat \<Rightarrow> ExhaleRoot \<Rightarrow> error + ExhaleRoot" where
  "discover_namespace xml nspace r =
     (case xml (refid (heap r nspace)) of
        NoContents \<Rightarrow> Inr r
      | Unparsable \<Rightarrow> Inr r
      | Parsed s \<Rightarrow>
         (case s of
            None \<Rightarrow> Inl AttributeError
          | Some cdef \<Rightarrow>
              fold_err discover_section_member (concat (sectiondefs cdef))
                (fold (discover_inner nspace) (innernamespaces cdef)
                   (fold (discover_inner nspace) (innerclasses cdef) r))))"

text \<open>
  The last part of \<open>discoverAllNodes\<close>.  \<open>missing_file_def\<close> holds the entries of
  \<open>node_by_refid\<close> whose node has no defining file and is not a file, directory, group
  or namespace; \<open>missing_file_def_candidates\<close> has the same keys.
\<close>

definition is_missing_file_def :: "ExhaleNode \<Rightarrow> bool" where
  "is_missing_file_def node =
     (def_in_file node = None
      \<and> kind node \<notin> {''file'', ''dir'', ''group'', ''namespace''})"

definition missing_file_def :: "ExhaleRoot \<Rightarrow> (string \<times> nat) list" where
  "missing_file_def r = filter (\<lambda>e. is_missing_file_def (heap r (snd e))) (node_by_refid r)"

text \<open>The body for one \<open>ref\<close> tag of the program listing of the file \<open>f\<close>.\<close>

definition add_candidate :: "nat \<Rightarrow> ref_tag \<Rightarrow> (string \<times> nat list) list \<Rightarrow> (string \<times> nat list) list" where
  "add_candidate f ref candidates =
     (case ref_refid ref of None \<Rightarrow> candidates | Some rid \<Rightarrow>
        if ref_kindref ref = Some ''member'' then
          (case map_of candidates rid of
             None \<Rightarrow> candidates
           | Some fs \<Rightarrow> if f \<notin> set fs then AList.update rid (fs @ [f]) candidates
                        else candidates)
        else candidates)"

text \<open>
  The loop over \<open>self.files\<close> that fills the candidates.  \<open>f.soup.doxygen.compounddef\<close>
  is read outside any \<open>try\<close>: a file without the attribute \<open>soup\<close>, or whose document
  has no \<open>compounddef\<close>, raises \<open>AttributeError\<close>.
\<close>

fun collect_candidates ::
  "(nat \<Rightarrow> ExhaleNode) \<Rightarrow> nat list \<Rightarrow> (string \<times> nat list) list \<Rightarrow> error + (string \<times> nat list) list" where
  "collect_candidates h [] candidates = Inr candidates"
| "collect_candidates h (f # fs) candidates =
     (case soup (h f) of
        None \<Rightarrow> Inl AttributeError
      | Some s \<Rightarrow>
         (case s of
            None \<Rightarrow> Inl AttributeError
          | Some cdef \<Rightarrow>
             (case programlisting cdef of
                None \<Rightarrow> collect_candidates h fs candidates
              | Some refs \<Rightarrow> collect_candidates h fs (fold (add_candidate f) refs candidates))))"

text \<open>The body of the final loop: a node with exactly one candidate gets it.\<close>

definition assign_single_candidate ::
  "(string \<times> nat list) list \<Rightarrow> string \<times> nat \<Rightarrow> ExhaleRoot \<Rightarrow> ExhaleRoot" where
  "assign_single_candidate candidates e r =
     (case map_of candidates (fst e) of
        None \<Rightarrow> r
      | Some fs \<Rightarrow> if length fs = 1 then set_def_in_file (snd e) (Some (hd fs)) r else r)"

definition resolve_missing_file_defs :: "ExhaleRoot \<Rightarrow> error + ExhaleRoot" where
  "resolve_missing_file_defs r =
     (case collect_candidates (heap r) (files r) (map (\<lambda>e. (fst e, [])) (missing_file_def r)) of
        Inl e \<Rightarrow> Inl e
      | Inr candidates \<Rightarrow> Inr (fold (assign_single_candidate candidates) (missing_file_def r) r))"

text \<open>\<open>discoverAllNodes\<close>.\<close>

definition discoverAllNodes ::
  "index_compound list option \<Rightarrow> (string \<Rightarrow> xml_contents) \<Rightarrow> ExhaleRoot \<Rightarrow> error + ExhaleRoot" where
  "discoverAllNodes idx xml r =
     (case discover_index idx r of Inl e \<Rightarrow> Inl e | Inr r1 \<Rightarrow>
      case fold_err (discover_namespace xml) (namespaces (discover_files xml (files r1) r1))
             (discover_files xml (files r1) r1) of Inl e \<Rightarrow> Inl e | Inr r3 \<Rightarrow>
        resolve_missing_file_defs r3)"

section \<open>Splitting and joining names\<close>

text \<open>
  \<open>s.split(sep)\<close> for a non-empty separator: the pieces between the occurrences of
  \<open>sep\<close>, found from left to right without overlap.  \<open>cur\<close> is the piece read so far.
\<close>

fun split_from :: "string \<Rightarrow> string \<Rightarrow> string \<Rightarrow> string list" where
  "split_from sep cur [] = [cur]"
| "split_from sep cur (x # xs) =
     (if sep \<noteq> [] \<and> startswith (x # xs) sep
      then cur # split_from sep [] (drop (length sep - 1) xs)
      else split_from sep (cur @ [x]) xs)"

definition str_split :: "string \<Rightarrow> string \<Rightarrow> string list" where
  "str_split sep s = split_from sep [] s"

text \<open>\<open>sep.join(parts)\<close>.\<close>

fun str_join :: "string \<Rightarrow> string list \<Rightarrow> string" where
  "str_join sep [] = []"
| "str_join sep [p] = p"
| "str_join sep (p # q # ps) = p @ sep @ str_join sep (q # ps)"

section \<open>Removing from the top-level lists\<close>

text \<open>\<open>xs.remove(x)\<close> deletes the first occurrence and raises \<open>ValueError\<close> when there is none.\<close>

definition list_remove :: "'a \<Rightarrow> 'a list \<Rightarrow> error + 'a list" where
  "list_remove x xs = (if x \<in> set xs then Inr (remove1 x xs) else Inl ValueError)"

text \<open>The loop \<open>for rm in removals: xs.remove(rm)\<close>.\<close>

fun remove_each :: "'a list \<Rightarrow> 'a list \<Rightarrow> error + 'a list" where
  "remove_each [] xs = Inr xs"
| "remove_each (rm # rms) xs =
     (case list_remove rm xs of Inl e \<Rightarrow> Inl e | Inr ys \<Rightarrow> remove_each rms ys)"

section \<open>The reparenting passes\<close>

text \<open>
  The body of the loop of \<open>reparentUnions\<close> over \<open>self.unions\<close>; the state is the
  root and the list \<open>removals\<close>.  Each inner \<open>for\<close> loop stops at its first match,
  which is \<open>find\<close>.
\<close>

fun reparent_union :: "nat \<Rightarrow> ExhaleRoot \<times> nat list \<Rightarrow> ExhaleRoot \<times> nat list" where
  "reparent_union u (r, removals) =
     (let parts = str_split ''::'' (name (heap r u));
          num_parts = length parts
      in if num_parts > 1 then
           (if num_parts > 2 then
              (let namespace_name = str_join ''::'' (take (num_parts - 2) parts);
                   potential_class = parts ! (num_parts - 2)
               in case find (\<lambda>cl. name (heap r cl) = potential_class) (class_like r) of
                    Some cl \<Rightarrow> (attach cl u r, removals @ [u])
                  | None \<Rightarrow>
                     (let alt_namespace_name = namespace_name @ ''::'' @ potential_class
                      in case find (\<lambda>n. namespace_name = name (heap r n)
                                          \<or> alt_namespace_name = name (heap r n)) (namespaces r) of
                           Some n \<Rightarrow> (attach n u r, removals)
                         | None \<Rightarrow> (r, removals)))
            else
              (let name_or_class_name = str_join ''::'' (butlast parts)
               in case find (\<lambda>cl. name (heap r cl) = name_or_class_name) (class_like r) of
                    Some cl \<Rightarrow> (attach cl u r, removals @ [u])
                  | None \<Rightarrow>
                     (case find (\<lambda>n. name (heap r n) = name_or_class_name) (namespaces r) of
                        Some n \<Rightarrow> (attach n u r, removals)
                      | None \<Rightarrow> (r, removals))))
         else (r, removals))"

definition reparentUnions :: "ExhaleRoot \<Rightarrow> error + ExhaleRoot" where
  "reparentUnions r =
     (let st = fold reparent_union (unions r) (r, [])
      in case remove_each (snd st) (unions (fst st)) of
           Inl e \<Rightarrow> Inl e
         | Inr us \<Rightarrow> Inr ((fst st)\<lparr>unions := us\<rparr>))"

text \<open>The body of the loop of \<open>reparentClassLike\<close> over \<open>self.class_like\<close>.\<close>

fun reparent_class :: "nat \<Rightarrow> ExhaleRoot \<times> nat list \<Rightarrow> ExhaleRoot \<times> nat list" where
  "reparent_class cl (r, removals) =
     (let parts = str_split ''::'' (name (heap r cl))
      in if length parts > 1 then
           (let parent_name = str_join ''::'' (butlast parts)
            in case find (\<lambda>parent_cl. name (heap r parent_cl) = parent_name) (class_like r) of
                 Some parent_cl \<Rightarrow> (attach parent_cl cl r, removals @ [cl])
               | None \<Rightarrow> (r, removals))
         else (r, removals))"

text \<open>\<open>if rm in self.class_like: self.class_like.remove(rm)\<close>.\<close>

definition remove_if_present :: "'a \<Rightarrow> 'a list \<Rightarrow> 'a list" where
  "remove_if_present rm xs = (if rm \<in> set xs then remove1 rm xs else xs)"

definition reparentClassLike :: "ExhaleRoot \<Rightarrow> ExhaleRoot" where
  "reparentClassLike r =
     (let st = fold reparent_class (class_like r) (r, [])
      in (fst st)\<lparr>class_like := fold remove_if_present (snd st) (class_like (fst st))\<rparr>)"

text \<open>
  \<open>reparentDirectories\<close>.  \<open>dir_ranks\<close> holds the pairs \<open>(len(parts), d)\<close>; Python
  orders such tuples by the first component and, when the ranks are equal and the nodes
  are not the same object, by \<open>ExhaleNode.__lt__\<close>.  The list \<open>dir_parts\<close> of the
  source is written and never read, and is left out.
\<close>

definition dir_rank :: "(nat \<Rightarrow> ExhaleNode) \<Rightarrow> nat \<Rightarrow> nat \<times> nat" where
  "dir_rank h d = (length (str_split ''/'' (name (h d))), d)"

definition rank_lt :: "(nat \<Rightarrow> ExhaleNode) \<Rightarrow> nat \<times> nat \<Rightarrow> nat \<times> nat \<Rightarrow> bool" where
  "rank_lt h a b =
     (if fst a \<noteq> fst b then fst a < fst b
      else if snd a = snd b then False
      else ExhaleNode_lt (h (snd a)) (h (snd b)))"

definition dir_parent_name :: "(nat \<Rightarrow> ExhaleNode) \<Rightarrow> nat \<Rightarrow> string" where
  "dir_parent_name h directory = str_join ''/'' (butlast (str_split ''/'' (name (h directory))))"

text \<open>
  The loop over \<open>reversed(traversal)\<close>: it ends at the first directory of rank below
  two; for any other directory the inner loop, again over \<open>reversed(traversal)\<close>,
  stops at the first directory one rank up whose name is the path without its last
  segment.
\<close>

fun reparent_dirs_loop ::
  "(nat \<times> nat) list \<Rightarrow> (nat \<times> nat) list \<Rightarrow> ExhaleRoot \<times> nat list \<Rightarrow> ExhaleRoot \<times> nat list" where
  "reparent_dirs_loop rev_traversal [] st = st"
| "reparent_dirs_loop rev_traversal ((rank, directory) # rest) (r, removals) =
     (if rank < 2 then (r, removals)
      else case find (\<lambda>p. fst p = rank - 1
                          \<and> name (heap r (snd p)) = dir_parent_name (heap r) directory) rev_traversal of
             Some p \<Rightarrow>
               reparent_dirs_loop rev_traversal rest
                 (attach (snd p) directory r,
                  if directory \<notin> set removals then removals @ [directory] else removals)
           | None \<Rightarrow> reparent_dirs_loop rev_traversal rest (r, removals))"

definition reparentDirectories :: "ExhaleRoot \<Rightarrow> error + ExhaleRoot" where
  "reparentDirectories r =
     (let traversal = list_sort (rank_lt (heap r)) (map (dir_rank (heap r)) (dirs r));
          st = reparent_dirs_loop (rev traversal) (rev traversal) (r, [])
      in case remove_each (snd st) (dirs (fst st)) of
           Inl e \<Rightarrow> Inl e
         | Inr ds \<Rightarrow> Inr ((fst st)\<lparr>dirs := ds\<rparr>))"

text \<open>
  \<open>renameToNamespaceScopes\<close>.  The test \<open>namespace_name not in child.name\<close> is the
  substring test on strings.
\<close>

definition rename_child :: "string \<Rightarrow> nat \<Rightarrow> ExhaleRoot \<Rightarrow> ExhaleRoot" where
  "rename_child namespace_name child r =
     (if \<not> str_contains namespace_name (name (heap r child))
      then set_name child (namespace_name @ name (heap r child)) r
      else r)"

definition rename_namespace :: "nat \<Rightarrow> ExhaleRoot \<Rightarrow> ExhaleRoot" where
  "rename_namespace n r =
     (let namespace_name = name (heap r n) @ ''::''
      in fold (rename_child namespace_name) (children (heap r n)) r)"

definition renameToNamespaceScopes :: "ExhaleRoot \<Rightarrow> ExhaleRoot" where
  "renameToNamespaceScopes r = fold rename_namespace (namespaces r) r"

text \<open>
  \<open>reparentNamespaces\<close>.  A node object is always true in a condition, so
  \<open>nspace.parent and ...\<close> tests that the parent is not \<open>None\<close>.
\<close>

definition collect_nested_namespace :: "ExhaleRoot \<Rightarrow> nat \<Rightarrow> nat list \<Rightarrow> nat list" where
  "collect_nested_namespace r nspace removals =
     (case parent (heap r nspace) of
        None \<Rightarrow> removals
      | Some p \<Rightarrow>
          if kind (heap r p) = ''namespace'' \<and> nspace \<notin> set removals
          then removals @ [nspace] else removals)"

definition reparentNamespaces :: "ExhaleRoot \<Rightarrow> error + ExhaleRoot" where
  "reparentNamespaces r =
     (case remove_each (fold (collect_nested_namespace r) (namespaces r) []) (namespaces r) of
        Inl e \<Rightarrow> Inl e
      | Inr ns \<Rightarrow> Inr (r\<lparr>namespaces := ns\<rparr>))"

text \<open>
  \<open>node.children = list(set(node.children))\<close>.  The order in which Python lists a set
  of objects is not specified; the model keeps the last occurrence of each child, in
  place, and nothing below depends on the order.
\<close>

definition list_of_set :: "nat list \<Rightarrow> nat list" where
  "list_of_set xs = remdups xs"

definition dedup_children :: "nat \<Rightarrow> ExhaleRoot \<Rightarrow> ExhaleRoot" where
  "dedup_children node r = set_children node (list_of_set (children (heap r node))) r"

text \<open>\<open>reparentAll\<close>: the five passes in order, then the loop over \<open>self.all_nodes\<close>.\<close>

definition reparentAll :: "ExhaleRoot \<Rightarrow> error + ExhaleRoot" where
  "reparentAll r =
     (case reparentUnions r of Inl e \<Rightarrow> Inl e | Inr r1 \<Rightarrow>
      case reparentDirectories (reparentClassLike r1) of Inl e \<Rightarrow> Inl e | Inr r3 \<Rightarrow>
      case reparentNamespaces (renameToNamespaceScopes r3) of Inl e \<Rightarrow> Inl e | Inr r5 \<Rightarrow>
        Inr (fold dedup_children (all_nodes r5) r5))"


section \<open>File references\<close>

text \<open>
  What the first loop of \<open>fileRefDiscovery\<close> extracts with its regular expressions
  from the lines of the XML file of a file, up to the point where reading fails: the
  location of the last \<open>location\<close> line, the refids of the \<open>inner...\<close> lines outside
  the program listing, and the lines of the program listing.
\<close>

record file_scan =
  scan_location :: "string option"
  scan_refids :: "string list"
  scan_program_listing :: "string list"

definition scan_file :: "(string \<Rightarrow> file_scan) \<Rightarrow> nat \<Rightarrow> ExhaleRoot \<Rightarrow> ExhaleRoot" where
  "scan_file scan f r =
     (let sc = scan (refid (heap r f));
          r1 = (case scan_location sc of None \<Rightarrow> r | Some l \<Rightarrow> set_location f l r)
      in set_program_listing f (program_listing (heap r1 f) @ scan_program_listing sc) r1)"

text \<open>
  \<open>doxygen_xml_file_ownerships[f]\<close>: the scanned refids that are keys of
  \<open>node_by_refid\<close>; the second loop looks each of them up, which gives these nodes.
\<close>

definition ownerships :: "(string \<Rightarrow> file_scan) \<Rightarrow> ExhaleRoot \<Rightarrow> nat \<Rightarrow> nat list" where
  "ownerships scan r f =
     List.map_filter (map_of (node_by_refid r)) (scan_refids (scan (refid (heap r f))))"

text \<open>
  \<open>s.replace(old, "")\<close>, and the step that strips \<open>configs.doxygenStripFromPath\<close>
  from the location of a file.  Where the stripped location begins with the path
  separator (\<open>os.sep\<close>, taken to be \<open>/\<close>) the source calls the string
  \<open>f.location\<close> as a function, which raises \<open>TypeError\<close>.
\<close>

fun str_remove :: "string \<Rightarrow> string \<Rightarrow> string" where
  "str_remove old [] = []"
| "str_remove old (x # xs) =
     (if old \<noteq> [] \<and> startswith (x # xs) old
      then str_remove old (drop (length old - 1) xs)
      else x # str_remove old xs)"

definition strip_location :: "string \<Rightarrow> nat \<Rightarrow> ExhaleRoot \<Rightarrow> error + ExhaleRoot" where
  "strip_location strip f r =
     (if startswith (str_remove strip (location (heap r f))) ''/''
      then Inl TypeError
      else Inr (set_location f (str_remove strip (location (heap r f))) r))"

text \<open>The body of the second loop for the file \<open>f\<close> and one owned node \<open>child\<close>.\<close>

definition reparent_file_ref :: "nat \<Rightarrow> nat \<Rightarrow> ExhaleRoot \<Rightarrow> ExhaleRoot" where
  "reparent_file_ref f child r =
     (if kind (heap r child) \<in> {''struct'', ''class'', ''function'', ''typedef'', ''define'',
                                 ''enum'', ''union''} then
        (if \<not> list_ex (\<lambda>fc. name (heap r child) = name (heap r fc)) (children (heap r f)) then
           (if kind (heap r child) = ''union'' then
              (if list_ex (\<lambda>u. name (heap r child) = name (heap r u)) (unions r)
               then append_child f child r else r)
            else append_child f child r)
         else r)
      else if kind (heap r child) = ''namespace'' then
        (if \<not> list_ex (\<lambda>fc. name (heap r child) = name (heap r fc)) (namespaces_used (heap r f))
         then set_namespaces_used f (namespaces_used (heap r f) @ [child]) r
         else r)
      else r)"

definition reparent_file_refs :: "(string \<Rightarrow> file_scan) \<Rightarrow> nat \<Rightarrow> ExhaleRoot \<Rightarrow> ExhaleRoot" where
  "reparent_file_refs scan f r = fold (reparent_file_ref f) (ownerships scan r f) r"

text \<open>The third loop: the children of the used namespaces that the file may own.\<close>

definition potential_orphans :: "ExhaleRoot \<Rightarrow> nat \<Rightarrow> nat list" where
  "potential_orphans r f =
     concat (map (\<lambda>n. filter (\<lambda>child. kind (heap r child) \<in>
                                  {''enum'', ''variable'', ''function'', ''typedef'', ''union''})
                          (children (heap r n)))
                 (namespaces_used (heap r f)))"

definition adopt_orphan :: "nat \<Rightarrow> nat \<Rightarrow> ExhaleRoot \<Rightarrow> ExhaleRoot" where
  "adopt_orphan f orphan r =
     (if str_contains (refid (heap r f)) (refid (heap r orphan))
         \<and> list_ex (str_contains (last (str_split ''::'' (name (heap r orphan)))))
              (program_listing (heap r f))
      then (if orphan \<notin> set (children (heap r f)) then append_child f orphan r else r)
      else r)"

definition adopt_orphans :: "nat \<Rightarrow> ExhaleRoot \<Rightarrow> ExhaleRoot" where
  "adopt_orphans f r = fold (adopt_orphan f) (potential_orphans r f) r"

text \<open>The last loop: every child of a file learns where it is defined.\<close>

definition check_file_child :: "nat \<Rightarrow> nat \<Rightarrow> ExhaleRoot \<Rightarrow> ExhaleRoot" where
  "check_file_child f child r =
     (case def_in_file (heap r child) of
        None \<Rightarrow> set_def_in_file child (Some f) r
      | Some g \<Rightarrow> if g \<noteq> f then exclaimError (ConflictingFileChild child g f) r else r)"

definition check_file_children :: "nat \<Rightarrow> ExhaleRoot \<Rightarrow> ExhaleRoot" where
  "check_file_children f r = fold (check_file_child f) (children (heap r f)) r"

definition check_files :: "ExhaleRoot \<Rightarrow> ExhaleRoot" where
  "check_files r = fold check_file_children (files r) r"

text \<open>
  \<open>fileRefDiscovery\<close>.  \<open>is_dir\<close> says whether \<open>configs.doxygenOutputDirectory\<close> is a
  directory, \<open>strip\<close> is \<open>configs.doxygenStripFromPath\<close>.
\<close>

definition fileRefDiscovery ::
  "bool \<Rightarrow> (string \<Rightarrow> file_scan) \<Rightarrow> string option \<Rightarrow> ExhaleRoot \<Rightarrow> error + ExhaleRoot" where
  "fileRefDiscovery is_dir scan strip r =
     (if \<not> is_dir then Inr (exclaimError InvalidOutputDirectory r)
      else case (case strip of
                   None \<Rightarrow> Inr (fold (scan_file scan) (files r) r)
                 | Some p \<Rightarrow> fold_err (strip_location p) (files r)
                              (fold (scan_file scan) (files r) r)) of
             Inl e \<Rightarrow> Inl e
           | Inr r2 \<Rightarrow>
               Inr (check_files
                      (fold adopt_orphans (files r2)
                         (fold (reparent_file_refs scan) (files r2) r2))))"

section \<open>Files into directories\<close>

text \<open>
  The \<open>while\<close> loop of \<open>filePostProcess\<close> for the file \<open>f\<close>: \<open>nodes_remaining.pop()\<close>
  takes the last element.  The loop need not end, so it is a partial function: \<open>None\<close>
  stands for a loop that runs forever.
\<close>

partial_function (option) find_directory ::
  "nat \<Rightarrow> string \<Rightarrow> nat list \<Rightarrow> ExhaleRoot \<Rightarrow> ExhaleRoot option" where
  "find_directory f dir_path nodes_remaining r =
     (if nodes_remaining = [] then Some r
      else if str_contains (name (heap r (last nodes_remaining))) dir_path then
        (if name (heap r (last nodes_remaining)) = dir_path
         then Some (attach (last nodes_remaining) f r)
         else find_directory f dir_path
                (filter (\<lambda>child. kind (heap r child) = ''dir'')
                   (children (heap r (last nodes_remaining)))) r)
      else find_directory f dir_path (butlast nodes_remaining) r)"

text \<open>The body of the loop over \<open>self.files\<close>.\<close>

definition attach_file :: "nat \<Rightarrow> ExhaleRoot \<Rightarrow> ExhaleRoot option" where
  "attach_file f r =
     (if butlast (str_split ''/'' (location (heap r f))) = [] then Some r
      else find_directory f (str_join ''/'' (butlast (str_split ''/'' (location (heap r f)))))
             (dirs r) r)"

fun fold_option :: "('a \<Rightarrow> 's \<Rightarrow> 's option) \<Rightarrow> 'a list \<Rightarrow> 's \<Rightarrow> 's option" where
  "fold_option f [] s = Some s"
| "fold_option f (x # xs) s = (case f x s of None \<Rightarrow> None | Some s' \<Rightarrow> fold_option f xs s')"

definition filePostProcess :: "ExhaleRoot \<Rightarrow> ExhaleRoot option" where
  "filePostProcess r = fold_option attach_file (files r) r"

section \<open>Sorting\<close>

text \<open>
  \<open>ExhaleNode.typeSort\<close> sorts the children of a node and calls itself on each child.
  \<open>limit\<close> is the depth of recursion that the interpreter allows; beyond it Python
  raises \<open>RecursionError\<close>.
\<close>

fun typeSort :: "nat \<Rightarrow> nat \<Rightarrow> ExhaleRoot \<Rightarrow> error + ExhaleRoot" where
  "typeSort 0 a r = Inl RecursionError"
| "typeSort (Suc limit) a r =
     fold_err (typeSort limit)
       (sort_nodes (heap r) (children (heap r a)))
       (set_children a (sort_nodes (heap r) (children (heap r a))) r)"

text \<open>\<open>deepSortList\<close> of one of the hierarchical lists, and \<open>sortInternals\<close>.\<close>

definition sort_list_of ::
  "(ExhaleRoot \<Rightarrow> nat list) \<Rightarrow> (nat list \<Rightarrow> ExhaleRoot \<Rightarrow> ExhaleRoot) \<Rightarrow> ExhaleRoot \<Rightarrow> ExhaleRoot" where
  "sort_list_of get put r = put (sort_nodes (heap r) (get r)) r"

definition deepSortList ::
  "nat \<Rightarrow> (ExhaleRoot \<Rightarrow> nat list) \<Rightarrow> (nat list \<Rightarrow> ExhaleRoot \<Rightarrow> ExhaleRoot) \<Rightarrow> ExhaleRoot
     \<Rightarrow> error + ExhaleRoot" where
  "deepSortList limit get put r =
     fold_err (typeSort limit) (sort_nodes (heap r) (get r)) (sort_list_of get put r)"

definition sort_flat_lists :: "ExhaleRoot \<Rightarrow> ExhaleRoot" where
  "sort_flat_lists r =
     r\<lparr>defines' := sort_nodes (heap r) (defines' r),
       enums := sort_nodes (heap r) (enums r),
       enum_values := sort_nodes (heap r) (enum_values r),
       functions' := sort_nodes (heap r) (functions' r),
       groups := sort_nodes (heap r) (groups r),
       typedefs := sort_nodes (heap r) (typedefs r),
       variables := sort_nodes (heap r) (variables r)\<rparr>"

definition sortInternals :: "nat \<Rightarrow> ExhaleRoot \<Rightarrow> error + ExhaleRoot" where
  "sortInternals limit r =
     (case deepSortList limit class_like (\<lambda>xs r. r\<lparr>class_like := xs\<rparr>) (sort_flat_lists r) of
        Inl e \<Rightarrow> Inl e | Inr r1 \<Rightarrow>
      case deepSortList limit namespaces (\<lambda>xs r. r\<lparr>namespaces := xs\<rparr>) r1 of
        Inl e \<Rightarrow> Inl e | Inr r2 \<Rightarrow>
      case deepSortList limit unions (\<lambda>xs r. r\<lparr>unions := xs\<rparr>) r2 of
        Inl e \<Rightarrow> Inl e | Inr r3 \<Rightarrow>
      case deepSortList limit files (\<lambda>xs r. r\<lparr>files := xs\<rparr>) r3 of
        Inl e \<Rightarrow> Inl e | Inr r4 \<Rightarrow>
        deepSortList limit dirs (\<lambda>xs r. r\<lparr>dirs := xs\<rparr>) r4)"

section \<open>The whole pipeline\<close>

text \<open>The loop of \<open>parse\<close> that files every node under its refid.\<close>

definition index_by_refid :: "ExhaleRoot \<Rightarrow> ExhaleRoot" where
  "index_by_refid r =
     fold (\<lambda>n r. r\<lparr>node_by_refid := AList.update (refid (heap r n)) n (node_by_refid r)\<rparr>)
       (all_nodes r) r"

text \<open>
  The inputs of \<open>parse\<close>: the index, the XML of each compound, whether the output
  directory exists, the scan of the XML of each file, the path to strip and the
  recursion limit.
\<close>

record parse_input =
  input_index :: "index_compound list option"
  input_xml :: "string \<Rightarrow> xml_contents"
  input_is_dir :: bool
  input_scan :: "string \<Rightarrow> file_scan"
  input_strip :: "string option"
  input_limit :: nat

text \<open>
  \<open>parse\<close>.  The result is \<open>None\<close> when the loop of \<open>filePostProcess\<close> does not end,
  \<open>Some (Inl e)\<close> when the exception \<open>e\<close> is raised and \<open>Some (Inr r)\<close> when \<open>parse\<close>
  returns.
\<close>

definition parse :: "parse_input \<Rightarrow> ExhaleRoot \<Rightarrow> (error + ExhaleRoot) option" where
  "parse inp r =
     (case discoverAllNodes (input_index inp) (input_xml inp) r of
        Inl e \<Rightarrow> Some (Inl e) | Inr r1 \<Rightarrow>
      case reparentAll r1 of
        Inl e \<Rightarrow> Some (Inl e) | Inr r2 \<Rightarrow>
      case fileRefDiscovery (input_is_dir inp) (input_scan inp) (input_strip inp)
             (index_by_refid r2) of
        Inl e \<Rightarrow> Some (Inl e) | Inr r3 \<Rightarrow>
      case filePostProcess r3 of
        None \<Rightarrow> None
      | Some r4 \<Rightarrow> Some (sortInternals (input_limit inp) r4))"

section \<open>Notions used in the statements\<close>




text \<open>
  The consistency of the edges: every node whose parent is set is among the children of
  that parent.
\<close>

definition edges_ok :: "ExhaleRoot \<Rightarrow> bool" where
  "edges_ok r = (\<forall>a p. parent (heap r a) = Some p \<longrightarrow> a \<in> set (children (heap r p)))"

text \<open>Every parent is a node that has been created.\<close>

definition parents_allocated :: "ExhaleRoot \<Rightarrow> bool" where
  "parents_allocated r = (\<forall>a p. parent (heap r a) = Some p \<longrightarrow> p < nxt r)"

definition disc_ok :: "ExhaleRoot \<Rightarrow> bool" where
  "disc_ok r = (edges_ok r \<and> parents_allocated r)"

text \<open>
  What all passes after the index do to the edges: the children of a node only grow
  as a set, and a parent that is set is either the parent as it was or one that already
  has the node among its children.
\<close>

definition ext :: "ExhaleRoot \<Rightarrow> ExhaleRoot \<Rightarrow> bool" where
  "ext r r' =
     ((\<forall>a. set (children (heap r a)) \<subseteq> set (children (heap r' a)))
      \<and> (\<forall>a p. parent (heap r' a) = Some p \<longrightarrow>
            parent (heap r a) = Some p \<or> a \<in> set (children (heap r' p))))"

text \<open>
  What the reparenting passes look for, written with the same searches as the passes:
  the class-like node and the namespace that the union pass finds for a union, the
  class-like node that the class pass finds for a class-like node, whether the directory
  pass finds a parent for a directory, and whether the namespace pass removes a
  namespace from the top-level list.
\<close>

definition union_class_match :: "ExhaleRoot \<Rightarrow> nat \<Rightarrow> nat option" where
  "union_class_match r u =
     (let parts = str_split ''::'' (name (heap r u)) in
      if length parts > 2
      then find (\<lambda>cl. name (heap r cl) = parts ! (length parts - 2)) (class_like r)
      else if length parts > 1
      then find (\<lambda>cl. name (heap r cl) = str_join ''::'' (butlast parts)) (class_like r)
      else None)"

definition union_namespace_match :: "ExhaleRoot \<Rightarrow> nat \<Rightarrow> nat option" where
  "union_namespace_match r u =
     (let parts = str_split ''::'' (name (heap r u)) in
      if length parts > 2
      then find (\<lambda>n. str_join ''::'' (take (length parts - 2) parts) = name (heap r n)
                      \<or> str_join ''::'' (take (length parts - 2) parts) @ ''::''
                           @ parts ! (length parts - 2) = name (heap r n)) (namespaces r)
      else if length parts > 1
      then find (\<lambda>n. name (heap r n) = str_join ''::'' (butlast parts)) (namespaces r)
      else None)"

definition class_parent_match :: "ExhaleRoot \<Rightarrow> nat \<Rightarrow> nat option" where
  "class_parent_match r cl =
     (let parts = str_split ''::'' (name (heap r cl)) in
      if length parts > 1
      then find (\<lambda>parent_cl. name (heap r parent_cl) = str_join ''::'' (butlast parts))
             (class_like r)
      else None)"

definition dir_has_parent :: "ExhaleRoot \<Rightarrow> nat \<Rightarrow> bool" where
  "dir_has_parent r d =
     (fst (dir_rank (heap r) d) \<ge> 2
      \<and> list_ex (\<lambda>p. fst (dir_rank (heap r) p) = fst (dir_rank (heap r) d) - 1
                     \<and> name (heap r p) = dir_parent_name (heap r) d) (dirs r))"

definition namespace_nested :: "ExhaleRoot \<Rightarrow> nat \<Rightarrow> bool" where
  "namespace_nested r n =
     (case parent (heap r n) of None \<Rightarrow> False | Some p \<Rightarrow> kind (heap r p) = ''namespace'')"

text \<open>
  A settled graph: no top-level union has a class-like match, and one with a namespace
  match has that namespace as its parent and is among its children; no top-level
  class-like node has a class-like parent by name; no top-level directory has a parent
  among the top-level directories; every child of a top-level namespace has the prefix
  of the namespace in its name; no top-level namespace has a namespace as its parent.
\<close>

definition settled :: "ExhaleRoot \<Rightarrow> bool" where
  "settled r =
     (list_all (\<lambda>u. union_class_match r u = None
                 \<and> (case union_namespace_match r u of
                       None \<Rightarrow> True
                     | Some n \<Rightarrow> parent (heap r u) = Some n \<and> u \<in> set (children (heap r n))))
        (unions r)
      \<and> list_all (\<lambda>cl. class_parent_match r cl = None) (class_like r)
      \<and> list_all (\<lambda>d. \<not> dir_has_parent r d) (dirs r)
      \<and> list_all (\<lambda>n. list_all (\<lambda>c. str_contains (name (heap r n) @ ''::'') (name (heap r c)))
                          (children (heap r n))) (namespaces r)
      \<and> list_all (\<lambda>n. \<not> namespace_nested r n) (namespaces r))"

text \<open>The per-kind lists, and two graphs with the same nodes, edges and lists.\<close>

definition top_level :: "ExhaleRoot \<Rightarrow> nat list list" where
  "top_level r =
     [class_like r, defines' r, enums r, enum_values r, functions' r, dirs r, files r,
      groups r, namespaces r, typedefs r, unions r, variables r]"

definition same_graph :: "ExhaleRoot \<Rightarrow> ExhaleRoot \<Rightarrow> bool" where
  "same_graph r r' =
     ((\<forall>a. name (heap r' a) = name (heap r a) \<and> kind (heap r' a) = kind (heap r a)
           \<and> parent (heap r' a) = parent (heap r a)
           \<and> set (children (heap r' a)) = set (children (heap r a)))
      \<and> top_level r' = top_level r \<and> all_nodes r' = all_nodes r)"

section \<open>Example inputs\<close>

text \<open>
  A function \<open>f\<close> of namespace \<open>N\<close> declared in the file \<open>a.h\<close>: the index lists it
  as a member of the namespace and as a member of the file, with the same refid.
\<close>

definition shared_member_index :: "index_compound list" where
  "shared_member_index =
     [Compound ''N'' ''namespace'' ''namespaceN'' [Member ''f'' ''function'' ''a_8h_1f''],
      Compound ''a.h'' ''file'' ''a_8h'' [Member ''f'' ''function'' ''a_8h_1f'']]"

text \<open>An enum value listed among the members of a namespace and of a file.\<close>

definition enumvalue_index :: "index_compound list" where
  "enumvalue_index =
     [Compound ''N'' ''namespace'' ''namespaceN'' [Member ''RED'' ''enumvalue'' ''a_8h_1red''],
      Compound ''a.h'' ''file'' ''a_8h'' [Member ''RED'' ''enumvalue'' ''a_8h_1red'']]"

text \<open>A namespace \<open>A\<close>, a class \<open>A::B\<close> in it and a union \<open>A::B::U\<close> in the class.\<close>

definition nested_union_index :: "index_compound list" where
  "nested_union_index =
     [Compound ''A'' ''namespace'' ''namespaceA'' [],
      Compound ''A::B'' ''class'' ''classA_1_1B'' [],
      Compound ''A::B::U'' ''union'' ''unionA_1_1B_1_1U'' []]"



text \<open>
  Two files and a namespace: \<open>a.h\<close> (node 0) lists the function \<open>f\<close> (node 1), and
  \<open>b.h\<close> (node 2), which lists nothing, has been given the children \<open>f\<close> and the
  variable \<open>v\<close> (node 4) of the namespace \<open>N\<close> (node 3).
\<close>

definition two_files_root :: ExhaleRoot where
  "two_files_root =
     append_child 2 4 (append_child 2 1
       (discover_compounds
          [Compound ''a.h'' ''file'' ''a_8h'' [Member ''f'' ''function'' ''a_8h_1f''],
           Compound ''b.h'' ''file'' ''b_8h'' [],
           Compound ''N'' ''namespace'' ''namespaceN'' [Member ''v'' ''variable'' ''b_8h_1v'']]
          ExhaleRoot_init))"






text \<open>
  An input of the whole pipeline: a directory \<open>inc\<close>, the file \<open>inc/a.h\<close> with a function
  and a namespace with a function.
\<close>

definition pipeline_cdef :: compounddef where
  "pipeline_cdef =
     \<lparr> innerclasses = [], innernamespaces = [], memberdefs = [], sectiondefs = [],
       location_tag = Some (Some ''inc/a.h''), programlisting = Some [] \<rparr>"

definition pipeline_input :: parse_input where
  "pipeline_input =
     \<lparr> input_index = Some
         [Compound ''inc'' ''dir'' ''dir_inc'' [],
          Compound ''a.h'' ''file'' ''a_8h'' [Member ''f'' ''function'' ''a_8h_1f''],
          Compound ''N'' ''namespace'' ''namespaceN'' [Member ''g'' ''function'' ''a_8h_1g'']],
       input_xml = (\<lambda>rid. if rid = ''a_8h'' then Parsed (Some pipeline_cdef) else NoContents),
       input_is_dir = True,
       input_scan = (\<lambda>rid. \<lparr> scan_location = (if rid = ''a_8h'' then Some ''inc/a.h'' else None),
                               scan_refids = [], scan_program_listing = [] \<rparr>),
       input_strip = None,
       input_limit = Suc (Suc (Suc 0)) \<rparr>"

text \<open>
  The namespaces \<open>A::B\<close> and \<open>A\<close>, in this order, and the union \<open>A::B::U\<close>; the XML
  of \<open>A\<close> names \<open>A::B\<close> as an inner namespace.
\<close>

definition nested_namespace_index :: "index_compound list" where
  "nested_namespace_index =
     [Compound ''A::B'' ''namespace'' ''namespaceA_1_1B'' [],
      Compound ''A'' ''namespace'' ''namespaceA'' [],
      Compound ''A::B::U'' ''union'' ''unionA_1_1B_1_1U'' []]"

definition nested_namespace_xml :: "string \<Rightarrow> xml_contents" where
  "nested_namespace_xml rid =
     (if rid = ''namespaceA''
      then Parsed (Some \<lparr> innerclasses = [], innernamespaces = [Some ''namespaceA_1_1B''],
                          memberdefs = [], sectiondefs = [], location_tag = None,
                          programlisting = None \<rparr>)
      else NoContents)"

definition nested_namespace_root :: ExhaleRoot where
  "nested_namespace_root =
     projr (discoverAllNodes (Some nested_namespace_index) nested_namespace_xml ExhaleRoot_init)"

text \<open>The graph that one run of the reparenting passes leaves for \<open>nested_union_index\<close>.\<close>

definition settled_root :: ExhaleRoot where
  "settled_root = projr (reparentAll (discover_compounds nested_union_index ExhaleRoot_init))"

section \<open>Unfolding the definitions\<close>

text \<open>The definitions that a computation on a concrete input unfolds.\<close>

lemmas store_defs =
  new_node_def trackNodeIfUnseen_def ExhaleRoot_init_def ExhaleNode_init_def set_parent_def
  set_def_in_file_def append_child_def set_children_def set_name_def attach_def Let_def

lemmas discover_defs =
  discover_compounds_def discover_compound_def discover_member_def Member_def Compound_def

lemmas reparent_defs =
  reparentAll_def reparentUnions_def reparentClassLike_def reparentDirectories_def
  renameToNamespaceScopes_def reparentNamespaces_def dedup_children_def list_of_set_def
  collect_nested_namespace_def rename_namespace_def rename_child_def str_split_def
  list_remove_def remove_if_present_def dir_rank_def rank_lt_def dir_parent_name_def
  list_sort_def ExhaleNode_lt_def lower_def lower_char_def

lemmas pipeline_defs =
  parse_def discoverAllNodes_def discover_index_def discover_file_cdef_def
  discover_namespace_def discover_inner_def resolve_missing_file_defs_def missing_file_def_def
  is_missing_file_def_def assign_single_candidate_def add_candidate_def
  set_soup_def set_def_in_file_location_def set_location_def set_program_listing_def
  set_namespaces_used_def exclaimError_def index_by_refid_def
  fileRefDiscovery_def scan_file_def ownerships_def reparent_file_refs_def
  reparent_file_ref_def potential_orphans_def adopt_orphans_def adopt_orphan_def
  check_files_def check_file_children_def check_file_child_def
  filePostProcess_def attach_file_def find_directory.simps
  sortInternals_def deepSortList_def sort_list_of_def sort_flat_lists_def sort_nodes_def
  List.map_filter_def

lemmas settled_defs =
  settled_def union_class_match_def union_namespace_match_def class_parent_match_def
  dir_has_parent_def namespace_nested_def top_level_def

section \<open>Properties of the comparison operator\<close>

lemma str_lt_irrefl: "\<not> str_lt s s"
  by (induction s) auto

lemma str_lt_asym: "str_lt s t \<Longrightarrow> \<not> str_lt t s"
  by (induction s t rule: str_lt.induct) auto

lemma ExhaleNode_lt_irrefl: "\<not> ExhaleNode_lt a a"
  by (simp add: ExhaleNode_lt_def str_lt_irrefl)

lemma ExhaleNode_lt_asym_same_family:
  assumes "class_like_kind (kind a) = class_like_kind (kind b)"
  shows "\<not> (ExhaleNode_lt a b \<and> ExhaleNode_lt b a)"
proof (cases "kind a = kind b")
  case True
  then show ?thesis
    using str_lt_asym [of "lower (name a)" "lower (name b)"]
    by (auto simp: ExhaleNode_lt_def)
next
  case False
  show ?thesis
  proof (cases "class_like_kind (kind a)")
    case True
    with assms False show ?thesis
      by (auto simp: ExhaleNode_lt_def class_like_kind_def)
  next
    case no: False
    with assms False show ?thesis
      using str_lt_asym [of "kind a" "kind b"]
      by (auto simp: ExhaleNode_lt_def class_like_kind_def)
  qed
qed

text \<open>
  Claim C2, as the code has it.  The comparison is irreflexive.  It is asymmetric on
  every pair of nodes that are both of kind struct or class, or both of another kind.
  When the kinds differ and neither is struct or class, \<open>a < b\<close> holds exactly when the
  kind tag of \<open>a\<close> is lexicographically smaller.  A struct or class node is smaller than
  every node of another kind, whatever the kind tags are.
\<close>

theorem ExhaleNode_lt_order:
  "\<not> ExhaleNode_lt a a
   \<and> (class_like_kind (kind a) = class_like_kind (kind b)
        \<longrightarrow> \<not> (ExhaleNode_lt a b \<and> ExhaleNode_lt b a))
   \<and> (kind a \<noteq> kind b \<and> \<not> class_like_kind (kind a) \<and> \<not> class_like_kind (kind b)
        \<longrightarrow> ExhaleNode_lt a b = str_lt (kind a) (kind b))
   \<and> (class_like_kind (kind a) \<and> \<not> class_like_kind (kind b) \<longrightarrow> ExhaleNode_lt a b)"
proof -
  have "kind a \<noteq> kind b \<and> \<not> class_like_kind (kind a) \<and> \<not> class_like_kind (kind b)
        \<longrightarrow> ExhaleNode_lt a b = str_lt (kind a) (kind b)"
    by (simp add: ExhaleNode_lt_def class_like_kind_def)
  moreover have "class_like_kind (kind a) \<and> \<not> class_like_kind (kind b) \<longrightarrow> ExhaleNode_lt a b"
    by (auto simp: ExhaleNode_lt_def class_like_kind_def)
  ultimately show ?thesis
    using ExhaleNode_lt_irrefl [of a] ExhaleNode_lt_asym_same_family [of a b] by blast
qed

theorem ExhaleNode_lt_order_witness:
  "(class_like_kind (kind (ExhaleNode_init ''Foo'' ''struct'' ''r1''))
      = class_like_kind (kind (ExhaleNode_init ''Foo'' ''class'' ''r2''))
    \<and> ExhaleNode_lt (ExhaleNode_init ''Foo'' ''struct'' ''r1'') (ExhaleNode_init ''Foo'' ''class'' ''r2'')
    \<and> \<not> ExhaleNode_lt (ExhaleNode_init ''Foo'' ''class'' ''r2'') (ExhaleNode_init ''Foo'' ''struct'' ''r1''))
   \<and> (kind (ExhaleNode_init ''e'' ''enum'' ''r3'') \<noteq> kind (ExhaleNode_init ''f'' ''function'' ''r4'')
    \<and> \<not> class_like_kind ''enum'' \<and> \<not> class_like_kind ''function''
    \<and> ExhaleNode_lt (ExhaleNode_init ''e'' ''enum'' ''r3'') (ExhaleNode_init ''f'' ''function'' ''r4'')
    \<and> str_lt ''enum'' ''function'')
   \<and> (class_like_kind ''struct'' \<and> \<not> class_like_kind ''define''
    \<and> ExhaleNode_lt (ExhaleNode_init ''s'' ''struct'' ''r5'') (ExhaleNode_init ''d'' ''define'' ''r6''))"
  using ExhaleNode_lt_order [of "ExhaleNode_init ''Foo'' ''struct'' ''r1''" "ExhaleNode_init ''Foo'' ''class'' ''r2''"]
    ExhaleNode_lt_order [of "ExhaleNode_init ''e'' ''enum'' ''r3''" "ExhaleNode_init ''f'' ''function'' ''r4''"]
    ExhaleNode_lt_order [of "ExhaleNode_init ''s'' ''struct'' ''r5''" "ExhaleNode_init ''d'' ''define'' ''r6''"]
  by (simp add: ExhaleNode_init_def class_like_kind_def ExhaleNode_lt_def)

text \<open>
  The claim as the specification states it fails: a struct node and a define node are
  each smaller than the other, and the struct node is smaller although its kind tag is
  the larger one.
\<close>

theorem ExhaleNode_lt_not_asym:
  "ExhaleNode_lt (ExhaleNode_init ''s'' ''struct'' ''r1'') (ExhaleNode_init ''d'' ''define'' ''r2'')
   \<and> ExhaleNode_lt (ExhaleNode_init ''d'' ''define'' ''r2'') (ExhaleNode_init ''s'' ''struct'' ''r1'')
   \<and> \<not> str_lt (kind (ExhaleNode_init ''s'' ''struct'' ''r1''))
              (kind (ExhaleNode_init ''d'' ''define'' ''r2''))"
  by (simp add: ExhaleNode_init_def ExhaleNode_lt_def)

text \<open>
  Claim C3, as the code has it.  Of a struct node and a class node the struct node is
  the smaller one and the class node is not smaller, whatever their names are; sorting
  the class node followed by the struct node puts the struct node first.
\<close>

theorem struct_before_class:
  "kind (h s) = ''struct'' \<and> kind (h c) = ''class''
   \<longrightarrow> ExhaleNode_lt (h s) (h c) \<and> \<not> ExhaleNode_lt (h c) (h s)
       \<and> sort_nodes h [c, s] = [s, c] \<and> sort_nodes h [s, c] = [s, c]"
  by (simp add: ExhaleNode_lt_def sort_nodes_def list_sort_def)

theorem struct_before_class_witness:
  "sort_nodes ((\<lambda>_. ExhaleNode_init [] [] [])
      (0 := ExhaleNode_init ''Foo'' ''class'' ''classFoo'',
       1 := ExhaleNode_init ''Foo'' ''struct'' ''structFoo'')) [0, 1] = [1, 0]"
  using struct_before_class [of "(\<lambda>_. ExhaleNode_init [] [] [])
      (0 := ExhaleNode_init ''Foo'' ''class'' ''classFoo'',
       1 := ExhaleNode_init ''Foo'' ''struct'' ''structFoo'')" 1 0]
  by (simp add: ExhaleNode_init_def)

text \<open>
  The claim as stated fails when the names differ: the struct \<open>Zed\<close> is smaller than
  the class \<open>Abc\<close>, and not the other way round, although \<open>abc\<close> comes before \<open>zed\<close>.
\<close>

theorem struct_before_class_by_name_fails:
  "ExhaleNode_lt (ExhaleNode_init ''Zed'' ''struct'' ''structZed'')
                 (ExhaleNode_init ''Abc'' ''class'' ''classAbc'')
   \<and> \<not> ExhaleNode_lt (ExhaleNode_init ''Abc'' ''class'' ''classAbc'')
                      (ExhaleNode_init ''Zed'' ''struct'' ''structZed'')
   \<and> str_lt (lower ''Abc'') (lower ''Zed'')"
  by (simp add: ExhaleNode_lt_def ExhaleNode_init_def lower_def lower_char_def)

section \<open>Properties of discovery\<close>

text \<open>
  Claim C1 at the index \<open>shared_member_index\<close>.  Discovery registers four nodes; the
  second and the fourth are different objects with the same refid, and the lookup by
  that refid gives the fourth.
\<close>

theorem discover_registers_refid_twice:
  "all_nodes (discover_compounds shared_member_index ExhaleRoot_init) = [0, 1, 2, 3]
   \<and> functions' (discover_compounds shared_member_index ExhaleRoot_init) = [1, 3]
   \<and> refid (heap (discover_compounds shared_member_index ExhaleRoot_init) 1) = ''a_8h_1f''
   \<and> refid (heap (discover_compounds shared_member_index ExhaleRoot_init) 3) = ''a_8h_1f''
   \<and> map_of (node_by_refid (discover_compounds shared_member_index ExhaleRoot_init)) ''a_8h_1f''
       = Some 3"
  by (simp add: shared_member_index_def discover_defs store_defs cong: let_weak_cong)

text \<open>
  Claim C5 at the index \<open>enumvalue_index\<close>.  The enum value listed by the namespace is
  registered, gets the namespace as its parent and is appended to the children of the
  namespace; the enum value listed by the file gets the file as its defining file and is
  appended to the children of the file.
\<close>

theorem discover_links_enumvalue:
  "enum_values (discover_compounds enumvalue_index ExhaleRoot_init) = [1, 3]
   \<and> kind (heap (discover_compounds enumvalue_index ExhaleRoot_init) 1) = ''enumvalue''
   \<and> parent (heap (discover_compounds enumvalue_index ExhaleRoot_init) 1) = Some 0
   \<and> children (heap (discover_compounds enumvalue_index ExhaleRoot_init) 0) = [1]
   \<and> def_in_file (heap (discover_compounds enumvalue_index ExhaleRoot_init) 3) = Some 2
   \<and> children (heap (discover_compounds enumvalue_index ExhaleRoot_init) 2) = [3]"
  by (simp add: enumvalue_index_def discover_defs store_defs cong: let_weak_cong)

section \<open>Properties of the reparenting passes\<close>

text \<open>
  Claim C4 at the index \<open>nested_union_index\<close>.  The namespace \<open>A\<close> is node 0, the class
  \<open>A::B\<close> node 1 and the union \<open>A::B::U\<close> node 2.  The union pass compares the name of
  the class with the segment \<open>B\<close> alone, finds no class, and attaches the union to the
  namespace \<open>A\<close>; the union stays in the top-level list of unions.
\<close>

theorem reparentUnions_skips_qualified_class:
  "\<not> isl (reparentUnions (discover_compounds nested_union_index ExhaleRoot_init))
   \<and> name (heap (discover_compounds nested_union_index ExhaleRoot_init) 1) = ''A::B''
   \<and> kind (heap (discover_compounds nested_union_index ExhaleRoot_init) 1) = ''class''
   \<and> unions (projr (reparentUnions (discover_compounds nested_union_index ExhaleRoot_init))) = [2]
   \<and> parent (heap (projr (reparentUnions (discover_compounds nested_union_index ExhaleRoot_init))) 2)
       = Some 0
   \<and> children (heap (projr (reparentUnions (discover_compounds nested_union_index ExhaleRoot_init))) 1)
       = []
   \<and> children (heap (projr (reparentUnions (discover_compounds nested_union_index ExhaleRoot_init))) 0)
       = [2]"
  by (simp add: nested_union_index_def discover_defs store_defs reparent_defs cong: let_weak_cong)


subsection \<open>Renaming to namespace scopes\<close>



lemma rename_child_children [simp]: "children (heap (rename_child p c r) a) = children (heap r a)"
  by (simp add: rename_child_def set_name_def)

lemma rename_child_namespaces [simp]: "namespaces (rename_child p c r) = namespaces r"
  by (simp add: rename_child_def set_name_def)



lemma fold_rename_child_children [simp]:
  "children (heap (fold (rename_child p) cs r) a) = children (heap r a)"
  by (induction cs arbitrary: r) auto

lemma fold_rename_child_namespaces [simp]:
  "namespaces (fold (rename_child p) cs r) = namespaces r"
  by (induction cs arbitrary: r) auto




lemma rename_namespace_children [simp]:
  "children (heap (rename_namespace n r) a) = children (heap r a)"
  by (simp add: rename_namespace_def Let_def)







section \<open>Properties of the file references\<close>

lemma check_file_child_children [simp]:
  "children (heap (check_file_child f c r) a) = children (heap r a)"
  by (simp add: check_file_child_def set_def_in_file_def exclaimError_def split: option.split)

lemma check_file_child_files [simp]: "files (check_file_child f c r) = files r"
  by (simp add: check_file_child_def set_def_in_file_def exclaimError_def split: option.split)

lemma check_file_child_keeps:
  "def_in_file (heap r x) = Some g \<Longrightarrow> def_in_file (heap (check_file_child f c r) x) = Some g"
  by (auto simp: check_file_child_def set_def_in_file_def exclaimError_def split: option.split)

lemma check_file_child_other:
  "x \<noteq> c \<Longrightarrow> def_in_file (heap (check_file_child f c r) x) = def_in_file (heap r x)"
  by (simp add: check_file_child_def set_def_in_file_def exclaimError_def split: option.split)

lemma check_file_child_diagnostics:
  "set (diagnostics r) \<subseteq> set (diagnostics (check_file_child f c r))"
  by (auto simp: check_file_child_def set_def_in_file_def exclaimError_def split: option.split)

lemma check_file_child_unset:
  "def_in_file (heap r c) = None \<Longrightarrow>
   def_in_file (heap (check_file_child f c r) c) = Some f
   \<and> diagnostics (check_file_child f c r) = diagnostics r"
  by (simp add: check_file_child_def set_def_in_file_def)

lemma check_file_child_conflict:
  "def_in_file (heap r c) = Some g \<Longrightarrow> g \<noteq> f \<Longrightarrow>
   heap (check_file_child f c r) = heap r
   \<and> diagnostics (check_file_child f c r) = diagnostics r @ [ConflictingFileChild c g f]"
  by (simp add: check_file_child_def exclaimError_def)

lemma fold_check_file_child_children [simp]:
  "children (heap (fold (check_file_child f) cs r) a) = children (heap r a)"
  by (induction cs arbitrary: r) auto

lemma fold_check_file_child_files [simp]: "files (fold (check_file_child f) cs r) = files r"
  by (induction cs arbitrary: r) auto

lemma fold_check_file_child_keeps:
  "def_in_file (heap r x) = Some g \<Longrightarrow> def_in_file (heap (fold (check_file_child f) cs r) x) = Some g"
  by (induction cs arbitrary: r) (auto simp: check_file_child_keeps)

lemma fold_check_file_child_other:
  "x \<notin> set cs \<Longrightarrow> def_in_file (heap (fold (check_file_child f) cs r) x) = def_in_file (heap r x)"
  by (induction cs arbitrary: r) (auto simp: check_file_child_other)

lemma fold_check_file_child_diagnostics:
  "set (diagnostics r) \<subseteq> set (diagnostics (fold (check_file_child f) cs r))"
proof (induction cs arbitrary: r)
  case Nil
  then show ?case by simp
next
  case (Cons c cs)
  show ?case
    using check_file_child_diagnostics [of r f c] Cons.IH [of "check_file_child f c r"] by auto
qed

lemma fold_check_file_child_unset:
  assumes "c \<in> set cs" and "def_in_file (heap r c) = None"
  shows "def_in_file (heap (fold (check_file_child f) cs r) c) = Some f"
  using assms
proof (induction cs arbitrary: r)
  case Nil
  then show ?case by simp
next
  case (Cons x xs)
  show ?case
  proof (cases "x = c")
    case True
    with Cons.prems have "def_in_file (heap (check_file_child f x r) c) = Some f"
      by (simp add: check_file_child_unset)
    then show ?thesis by (simp add: fold_check_file_child_keeps)
  next
    case False
    with Cons.prems have "c \<in> set xs" "def_in_file (heap (check_file_child f x r) c) = None"
      by (simp_all add: check_file_child_other)
    then show ?thesis using Cons.IH by simp
  qed
qed

lemma fold_check_file_child_conflict:
  assumes "c \<in> set cs" and "def_in_file (heap r c) = Some g" and "g \<noteq> f"
  shows "ConflictingFileChild c g f \<in> set (diagnostics (fold (check_file_child f) cs r))"
  using assms
proof (induction cs arbitrary: r)
  case Nil
  then show ?case by simp
next
  case (Cons x xs)
  show ?case
  proof (cases "x = c")
    case True
    with Cons.prems have "ConflictingFileChild c g f \<in> set (diagnostics (check_file_child f x r))"
      by (simp add: check_file_child_conflict)
    then show ?thesis
      using fold_check_file_child_diagnostics [of "check_file_child f x r" f xs] by auto
  next
    case False
    with Cons.prems have "c \<in> set xs" "def_in_file (heap (check_file_child f x r) c) = Some g"
      by (simp_all add: check_file_child_other)
    then show ?thesis using Cons.IH Cons.prems(3) by simp
  qed
qed

lemma check_file_children_children [simp]:
  "children (heap (check_file_children f r) a) = children (heap r a)"
  by (simp add: check_file_children_def)

lemma check_file_children_keeps:
  "def_in_file (heap r x) = Some g \<Longrightarrow> def_in_file (heap (check_file_children f r) x) = Some g"
  by (simp add: check_file_children_def fold_check_file_child_keeps)

lemma check_file_children_other:
  "x \<notin> set (children (heap r f)) \<Longrightarrow>
   def_in_file (heap (check_file_children f r) x) = def_in_file (heap r x)"
  by (simp add: check_file_children_def fold_check_file_child_other)

lemma check_file_children_diagnostics:
  "set (diagnostics r) \<subseteq> set (diagnostics (check_file_children f r))"
  by (simp add: check_file_children_def fold_check_file_child_diagnostics)

lemma fold_check_file_children_children [simp]:
  "children (heap (fold check_file_children fs r) a) = children (heap r a)"
  by (induction fs arbitrary: r) auto

lemma fold_check_file_children_keeps:
  "def_in_file (heap r x) = Some g \<Longrightarrow> def_in_file (heap (fold check_file_children fs r) x) = Some g"
  by (induction fs arbitrary: r) (auto simp: check_file_children_keeps)

lemma fold_check_file_children_diagnostics:
  "set (diagnostics r) \<subseteq> set (diagnostics (fold check_file_children fs r))"
proof (induction fs arbitrary: r)
  case Nil
  then show ?case by simp
next
  case (Cons f fs)
  show ?case
    using check_file_children_diagnostics [of r f] Cons.IH [of "check_file_children f r"] by auto
qed

lemma fold_check_file_children_conflict:
  assumes "f \<in> set fs" and "c \<in> set (children (heap r f))"
      and "def_in_file (heap r c) = Some g" and "g \<noteq> f"
  shows "ConflictingFileChild c g f \<in> set (diagnostics (fold check_file_children fs r))"
  using assms
proof (induction fs arbitrary: r)
  case Nil
  then show ?case by simp
next
  case (Cons x xs)
  show ?case
  proof (cases "x = f")
    case True
    with Cons.prems have "ConflictingFileChild c g f \<in> set (diagnostics (check_file_children x r))"
      by (simp add: check_file_children_def fold_check_file_child_conflict)
    then show ?thesis
      using fold_check_file_children_diagnostics [of "check_file_children x r" xs] by auto
  next
    case False
    with Cons.prems have "f \<in> set xs" by simp
    moreover have "c \<in> set (children (heap (check_file_children x r) f))"
      using Cons.prems(2) by simp
    moreover have "def_in_file (heap (check_file_children x r) c) = Some g"
      using Cons.prems(3) by (rule check_file_children_keeps)
    ultimately show ?thesis using Cons.IH Cons.prems(4) by simp
  qed
qed

lemma fold_check_file_children_unset:
  assumes "f \<in> set fs" and "c \<in> set (children (heap r f))"
      and "def_in_file (heap r c) = None"
      and "\<forall>f' \<in> set fs. c \<in> set (children (heap r f')) \<longrightarrow> f' = f"
  shows "def_in_file (heap (fold check_file_children fs r) c) = Some f"
  using assms
proof (induction fs arbitrary: r)
  case Nil
  then show ?case by simp
next
  case (Cons x xs)
  show ?case
  proof (cases "x = f")
    case True
    have "def_in_file (heap (check_file_children x r) c) = Some f"
      using True Cons.prems(2,3) by (simp add: check_file_children_def fold_check_file_child_unset)
    then show ?thesis by (simp add: fold_check_file_children_keeps)
  next
    case False
    have in_xs: "f \<in> set xs"
      using False Cons.prems(1) by simp
    have "c \<notin> set (children (heap r x))"
      using False Cons.prems(4) by fastforce
    then have p3: "def_in_file (heap (check_file_children x r) c) = None"
      using Cons.prems(3) by (simp add: check_file_children_other)
    have p2: "c \<in> set (children (heap (check_file_children x r) f))"
      using Cons.prems(2) by simp
    have p4: "\<forall>f' \<in> set xs. c \<in> set (children (heap (check_file_children x r) f')) \<longrightarrow> f' = f"
      using Cons.prems(4) by simp
    have "def_in_file (heap (fold check_file_children xs (check_file_children x r)) c) = Some f"
      by (rule Cons.IH [OF in_xs p2 p3 p4])
    then show ?thesis by simp
  qed
qed

text \<open>
  Claim C9.  In the check of the child \<open>c\<close> of the file \<open>f\<close>: a child without a
  defining file gets \<open>f\<close>, and no diagnostic is emitted; a child that is already
  defined in another file \<open>g\<close> leaves the store as it is and emits the diagnostic of
  the conflict.  Over the whole pass: a defining file that is set is never replaced;
  for every child of a file that is defined in another file the diagnostic is among
  those emitted; a child without a defining file that only one file has gets that
  file.  No conflict raises an exception: with no path to strip \<open>fileRefDiscovery\<close>
  returns.
\<close>

theorem check_files_conflict:
  "(def_in_file (heap r c) = None \<longrightarrow>
      def_in_file (heap (check_file_child f c r) c) = Some f
      \<and> diagnostics (check_file_child f c r) = diagnostics r)
   \<and> (def_in_file (heap r c) = Some g \<and> g \<noteq> f \<longrightarrow>
      heap (check_file_child f c r) = heap r
      \<and> diagnostics (check_file_child f c r) = diagnostics r @ [ConflictingFileChild c g f])
   \<and> (def_in_file (heap r c) = Some g \<longrightarrow> def_in_file (heap (check_files r) c) = Some g)
   \<and> (f \<in> set (files r) \<and> c \<in> set (children (heap r f))
        \<and> def_in_file (heap r c) = Some g \<and> g \<noteq> f \<longrightarrow>
      ConflictingFileChild c g f \<in> set (diagnostics (check_files r)))
   \<and> (f \<in> set (files r) \<and> c \<in> set (children (heap r f)) \<and> def_in_file (heap r c) = None
        \<and> (\<forall>f' \<in> set (files r). c \<in> set (children (heap r f')) \<longrightarrow> f' = f) \<longrightarrow>
      def_in_file (heap (check_files r) c) = Some f)
   \<and> \<not> isl (fileRefDiscovery is_dir scan None r)"
proof -
  have a: "def_in_file (heap r c) = None \<longrightarrow>
      def_in_file (heap (check_file_child f c r) c) = Some f
      \<and> diagnostics (check_file_child f c r) = diagnostics r"
    using check_file_child_unset [of r c f] by blast
  have b: "def_in_file (heap r c) = Some g \<and> g \<noteq> f \<longrightarrow>
      heap (check_file_child f c r) = heap r
      \<and> diagnostics (check_file_child f c r) = diagnostics r @ [ConflictingFileChild c g f]"
    using check_file_child_conflict [of r c g f] by blast
  have c: "def_in_file (heap r c) = Some g \<longrightarrow> def_in_file (heap (check_files r) c) = Some g"
    unfolding check_files_def using fold_check_file_children_keeps [of r c g "files r"] by blast
  have d: "f \<in> set (files r) \<and> c \<in> set (children (heap r f))
        \<and> def_in_file (heap r c) = Some g \<and> g \<noteq> f \<longrightarrow>
      ConflictingFileChild c g f \<in> set (diagnostics (check_files r))"
    unfolding check_files_def using fold_check_file_children_conflict [of f "files r" c r g] by blast
  have e: "f \<in> set (files r) \<and> c \<in> set (children (heap r f)) \<and> def_in_file (heap r c) = None
        \<and> (\<forall>f' \<in> set (files r). c \<in> set (children (heap r f')) \<longrightarrow> f' = f) \<longrightarrow>
      def_in_file (heap (check_files r) c) = Some f"
    unfolding check_files_def using fold_check_file_children_unset [of f "files r" c r] by blast
  have f: "\<not> isl (fileRefDiscovery is_dir scan None r)"
    by (simp add: fileRefDiscovery_def)
  from a b c d e f show ?thesis by blast
qed

theorem check_files_conflict_witness:
  "def_in_file (heap two_files_root 1) = Some 0
   \<and> def_in_file (heap (check_files two_files_root) 1) = Some 0
   \<and> ConflictingFileChild 1 0 2 \<in> set (diagnostics (check_files two_files_root))
   \<and> def_in_file (heap two_files_root 4) = None
   \<and> def_in_file (heap (check_files two_files_root) 4) = Some 2"
  using check_files_conflict [of two_files_root 1 2 0]
    check_files_conflict [of two_files_root 4 2]
  by (simp add: two_files_root_def discover_defs store_defs cong: let_weak_cong)

section \<open>Properties of the resolution of defining files\<close>










lemma map_of_distinct_mem:
  "distinct (map fst al) \<Longrightarrow> (k, v) \<in> set al \<Longrightarrow> map_of al k = Some v"
  by simp



section \<open>Consistency of parents and children\<close>

lemma ext_refl [simp]: "ext r r"
  by (simp add: ext_def)

lemma ext_trans [trans]: "ext r r' \<Longrightarrow> ext r' r'' \<Longrightarrow> ext r r''"
  unfolding ext_def by (meson subset_iff)

lemma ext_edges_ok: "edges_ok r \<Longrightarrow> ext r r' \<Longrightarrow> edges_ok r'"
  unfolding ext_def edges_ok_def by (meson subset_iff)

lemma ext_same_heap: "heap r' = heap r \<Longrightarrow> ext r r'"
  by (simp add: ext_def)

lemma ext_same_edges:
  "(\<And>a. parent (heap r' a) = parent (heap r a)) \<Longrightarrow>
   (\<And>a. set (children (heap r a)) \<subseteq> set (children (heap r' a))) \<Longrightarrow> ext r r'"
  by (simp add: ext_def)

lemma ext_fold:
  assumes "\<And>x s. ext s (f x s)"
  shows "ext s (fold f xs s)"
proof (induction xs arbitrary: s)
  case Nil
  show ?case by simp
next
  case (Cons x xs)
  have "ext s (f x s)" by (rule assms)
  moreover have "ext (f x s) (fold f xs (f x s))" by (rule Cons.IH)
  ultimately show ?case by (simp add: ext_trans [of s "f x s"])
qed

lemma ext_fold_fst:
  assumes "\<And>x s. ext (fst s) (fst (f x s))"
  shows "ext (fst s) (fst (fold f xs s))"
proof (induction xs arbitrary: s)
  case Nil
  show ?case by simp
next
  case (Cons x xs)
  have "ext (fst s) (fst (f x s))" by (rule assms)
  moreover have "ext (fst (f x s)) (fst (fold f xs (f x s)))" by (rule Cons.IH)
  ultimately show ?case by (simp add: ext_trans [of "fst s" "fst (f x s)"])
qed

lemma ext_fold_err:
  assumes "\<And>x s s'. f x s = Inr s' \<Longrightarrow> ext s s'"
  shows "fold_err f xs s = Inr s' \<Longrightarrow> ext s s'"
proof (induction xs arbitrary: s)
  case Nil
  then show ?case by simp
next
  case (Cons x xs)
  from Cons.prems obtain s1 where s1: "f x s = Inr s1" "fold_err f xs s1 = Inr s'"
    by (auto split: sum.splits)
  have "ext s s1" using s1(1) by (rule assms)
  moreover have "ext s1 s'" using s1(2) by (rule Cons.IH)
  ultimately show ?case by (rule ext_trans)
qed

lemma ext_fold_option:
  assumes "\<And>x s s'. f x s = Some s' \<Longrightarrow> ext s s'"
  shows "fold_option f xs s = Some s' \<Longrightarrow> ext s s'"
proof (induction xs arbitrary: s)
  case Nil
  then show ?case by simp
next
  case (Cons x xs)
  from Cons.prems obtain s1 where s1: "f x s = Some s1" "fold_option f xs s1 = Some s'"
    by (auto split: option.splits)
  have "ext s s1" using s1(1) by (rule assms)
  moreover have "ext s1 s'" using s1(2) by (rule Cons.IH)
  ultimately show ?case by (rule ext_trans)
qed

subsection \<open>Assignments\<close>

lemma ext_append_child: "ext r (append_child p c r)"
  by (auto simp: ext_def append_child_def set_children_def)

lemma ext_attach: "ext r (attach p c r)"
  by (auto simp: ext_def attach_def set_parent_def append_child_def set_children_def)

lemma ext_set_children: "set (children (heap r a)) \<subseteq> set cs \<Longrightarrow> ext r (set_children a cs r)"
  by (auto simp: ext_def set_children_def)

lemma ext_set_def_in_file: "ext r (set_def_in_file a f r)"
  by (simp add: ext_def set_def_in_file_def)

lemma ext_set_name: "ext r (set_name a n r)"
  by (simp add: ext_def set_name_def)

lemma ext_set_soup: "ext r (set_soup a s r)"
  by (simp add: ext_def set_soup_def)

lemma ext_set_def_in_file_location: "ext r (set_def_in_file_location a l r)"
  by (simp add: ext_def set_def_in_file_location_def)

lemma ext_set_location: "ext r (set_location a l r)"
  by (simp add: ext_def set_location_def)

lemma ext_set_program_listing: "ext r (set_program_listing a l r)"
  by (simp add: ext_def set_program_listing_def)

lemma ext_set_namespaces_used: "ext r (set_namespaces_used a l r)"
  by (simp add: ext_def set_namespaces_used_def)

lemma ext_exclaimError: "ext r (exclaimError d r)"
  by (simp add: ext_def exclaimError_def)

lemma heap_trackNodeIfUnseen [simp]: "heap (trackNodeIfUnseen a r) = heap r"
  by (simp add: trackNodeIfUnseen_def Let_def)

lemma nxt_trackNodeIfUnseen [simp]: "nxt (trackNodeIfUnseen a r) = nxt r"
  by (simp add: trackNodeIfUnseen_def Let_def)

lemmas ext_prims = ext_append_child ext_attach ext_set_def_in_file ext_set_name ext_set_soup
  ext_set_def_in_file_location ext_set_location ext_set_program_listing ext_set_namespaces_used
  ext_exclaimError

subsection \<open>The reparenting passes keep the edges\<close>

lemma ext_reparent_union: "ext (fst s) (fst (reparent_union u s))"
  by (cases s) (auto simp: Let_def ext_attach split: option.split)

lemma ext_reparent_class: "ext (fst s) (fst (reparent_class u s))"
  by (cases s) (auto simp: Let_def ext_attach split: option.split)

lemma ext_reparent_dirs_loop: "ext (fst s) (fst (reparent_dirs_loop t xs s))"
proof (induction t xs s rule: reparent_dirs_loop.induct)
  case (1 t st)
  show ?case by simp
next
  case (2 t rank directory rest r removals)
  show ?case
  proof (cases "rank < 2")
    case True
    then show ?thesis by simp
  next
    case False
    show ?thesis
    proof (cases "find (\<lambda>p. fst p = rank - 1
             \<and> name (heap r (snd p)) = dir_parent_name (heap r) directory) t")
      case None
      with False 2(1) [OF False None] show ?thesis by simp
    next
      case (Some p)
      have "ext r (attach (snd p) directory r)" by (rule ext_attach)
      with False Some 2(2) [OF False Some] show ?thesis
        by (auto intro: ext_trans)
    qed
  qed
qed



lemma ext_update_list_field:
  "heap r' = heap r \<Longrightarrow> ext r0 r \<Longrightarrow> ext r0 r'"
  by (simp add: ext_def)

lemma ext_reparentUnions: "reparentUnions r = Inr r' \<Longrightarrow> ext r r'"
proof -
  assume a: "reparentUnions r = Inr r'"
  define st where "st = fold reparent_union (unions r) (r, [])"
  have "ext (fst (r, [] :: nat list)) (fst st)"
    unfolding st_def by (rule ext_fold_fst) (rule ext_reparent_union)
  then have e: "ext r (fst st)" by simp
  from a have "heap r' = heap (fst st)"
    by (auto simp: reparentUnions_def Let_def st_def split: sum.splits)
  then show ?thesis using e by (rule ext_update_list_field)
qed

lemma ext_reparentClassLike: "ext r (reparentClassLike r)"
proof -
  define st where "st = fold reparent_class (class_like r) (r, [])"
  have "ext (fst (r, [] :: nat list)) (fst st)"
    unfolding st_def by (rule ext_fold_fst) (rule ext_reparent_class)
  then have e: "ext r (fst st)" by simp
  have "heap (reparentClassLike r) = heap (fst st)"
    by (simp add: reparentClassLike_def Let_def st_def)
  then show ?thesis using e by (rule ext_update_list_field)
qed

lemma ext_reparentDirectories: "reparentDirectories r = Inr r' \<Longrightarrow> ext r r'"
proof -
  assume a: "reparentDirectories r = Inr r'"
  define t where "t = rev (list_sort (rank_lt (heap r)) (map (dir_rank (heap r)) (dirs r)))"
  define st where "st = reparent_dirs_loop t t (r, [])"
  have "ext (fst (r, [] :: nat list)) (fst st)"
    unfolding st_def by (rule ext_reparent_dirs_loop)
  then have e: "ext r (fst st)" by simp
  from a have "heap r' = heap (fst st)"
    by (auto simp: reparentDirectories_def Let_def st_def t_def split: sum.splits)
  then show ?thesis using e by (rule ext_update_list_field)
qed

lemma ext_rename_child: "ext r (rename_child p c r)"
  by (simp add: rename_child_def ext_set_name)

lemma ext_rename_namespace: "ext r (rename_namespace n r)"
  unfolding rename_namespace_def Let_def by (rule ext_fold) (rule ext_rename_child)

lemma ext_renameToNamespaceScopes: "ext r (renameToNamespaceScopes r)"
  unfolding renameToNamespaceScopes_def by (rule ext_fold) (rule ext_rename_namespace)

lemma ext_reparentNamespaces: "reparentNamespaces r = Inr r' \<Longrightarrow> ext r r'"
  by (auto simp: reparentNamespaces_def ext_def split: sum.splits)

lemma ext_dedup_children: "ext r (dedup_children a r)"
  unfolding dedup_children_def by (rule ext_set_children) (simp add: list_of_set_def)

lemma ext_reparentAll: "reparentAll r = Inr r' \<Longrightarrow> ext r r'"
proof -
  assume a: "reparentAll r = Inr r'"
  then obtain r1 r3 r5 where
    s: "reparentUnions r = Inr r1" "reparentDirectories (reparentClassLike r1) = Inr r3"
       "reparentNamespaces (renameToNamespaceScopes r3) = Inr r5"
       "r' = fold dedup_children (all_nodes r5) r5"
    by (auto simp: reparentAll_def split: sum.splits)
  have "ext r r1" using s(1) by (rule ext_reparentUnions)
  moreover have "ext r1 (reparentClassLike r1)" by (rule ext_reparentClassLike)
  moreover have "ext (reparentClassLike r1) r3" using s(2) by (rule ext_reparentDirectories)
  moreover have "ext r3 (renameToNamespaceScopes r3)" by (rule ext_renameToNamespaceScopes)
  moreover have "ext (renameToNamespaceScopes r3) r5" using s(3) by (rule ext_reparentNamespaces)
  moreover have "ext r5 r'" unfolding s(4) by (rule ext_fold) (rule ext_dedup_children)
  ultimately show ?thesis by (blast intro: ext_trans)
qed

subsection \<open>Sorting keeps the edges\<close>

lemma set_insort_lt [simp]: "set (insort_lt lt x xs) = insert x (set xs)"
  by (induction xs) auto

lemma set_foldl_insort_lt:
  "set (foldl (\<lambda>acc x. insort_lt lt x acc) acc xs) = set acc \<union> set xs"
  by (induction xs arbitrary: acc) auto

lemma set_list_sort [simp]: "set (list_sort lt xs) = set xs"
  by (simp add: list_sort_def set_foldl_insort_lt)

lemma set_sort_nodes [simp]: "set (sort_nodes h xs) = set xs"
  by (simp add: sort_nodes_def)

lemma ext_typeSort: "typeSort limit a r = Inr r' \<Longrightarrow> ext r r'"
proof (induction limit arbitrary: a r r')
  case 0
  then show ?case by simp
next
  case (Suc limit)
  let ?cs = "sort_nodes (heap r) (children (heap r a))"
  have 1: "ext r (set_children a ?cs r)"
    by (rule ext_set_children) simp
  from Suc.prems have "fold_err (typeSort limit) ?cs (set_children a ?cs r) = Inr r'"
    by simp
  then have "ext (set_children a ?cs r) r'"
    by (rule ext_fold_err [rotated]) (rule Suc.IH)
  with 1 show ?case by (rule ext_trans)
qed

lemma ext_deepSortList:
  assumes "\<And>xs s. heap (put xs s) = heap s"
  shows "deepSortList limit get put r = Inr r' \<Longrightarrow> ext r r'"
proof -
  assume a: "deepSortList limit get put r = Inr r'"
  have "ext r (sort_list_of get put r)"
    by (rule ext_same_heap) (simp add: sort_list_of_def assms)
  moreover have "ext (sort_list_of get put r) r'"
    using a unfolding deepSortList_def by (rule ext_fold_err [rotated]) (rule ext_typeSort)
  ultimately show ?thesis by (rule ext_trans)
qed

lemma ext_sortInternals: "sortInternals limit r = Inr r' \<Longrightarrow> ext r r'"
proof -
  assume a: "sortInternals limit r = Inr r'"
  then obtain r1 r2 r3 r4 where
    s: "deepSortList limit class_like (\<lambda>xs r. r\<lparr>class_like := xs\<rparr>) (sort_flat_lists r) = Inr r1"
       "deepSortList limit namespaces (\<lambda>xs r. r\<lparr>namespaces := xs\<rparr>) r1 = Inr r2"
       "deepSortList limit unions (\<lambda>xs r. r\<lparr>unions := xs\<rparr>) r2 = Inr r3"
       "deepSortList limit files (\<lambda>xs r. r\<lparr>files := xs\<rparr>) r3 = Inr r4"
       "deepSortList limit dirs (\<lambda>xs r. r\<lparr>dirs := xs\<rparr>) r4 = Inr r'"
    by (auto simp: sortInternals_def split: sum.splits)
  have "ext r (sort_flat_lists r)"
    by (rule ext_same_heap) (simp add: sort_flat_lists_def)
  moreover have "ext (sort_flat_lists r) r1" using s(1) by (rule ext_deepSortList [rotated]) simp
  moreover have "ext r1 r2" using s(2) by (rule ext_deepSortList [rotated]) simp
  moreover have "ext r2 r3" using s(3) by (rule ext_deepSortList [rotated]) simp
  moreover have "ext r3 r4" using s(4) by (rule ext_deepSortList [rotated]) simp
  moreover have "ext r4 r'" using s(5) by (rule ext_deepSortList [rotated]) simp
  ultimately show ?thesis by (blast intro: ext_trans)
qed


subsection \<open>Attaching files to directories keeps the edges\<close>

lemma ext_find_directory:
  assumes "find_directory f dir_path nodes_remaining r = Some r'"
  shows "ext r r'"
  using assms
proof (induct rule: find_directory.raw_induct)
  case (1 fd f dir_path nodes_remaining r r')
  note unfolded = 1(3) [unfolded find_directory.simps [of f dir_path nodes_remaining r]]
  show ?case
  proof (cases "nodes_remaining = []")
    case True
    with 1(2) show ?thesis by simp
  next
    case ne: False
    show ?thesis
    proof (cases "str_contains (name (heap r (last nodes_remaining))) dir_path")
      case True
      show ?thesis
      proof (cases "name (heap r (last nodes_remaining)) = dir_path")
        case eq: True
        with ne True 1(2) have "r' = attach (last nodes_remaining) f r" by simp
        then show ?thesis by (simp add: ext_attach)
      next
        case neq: False
        with ne True 1(2) have a: "fd f dir_path
            (filter (\<lambda>child. kind (heap r child) = ''dir'')
               (children (heap r (last nodes_remaining)))) r = Some r'"
          by simp
        from ne True neq unfolded have b: "find_directory f dir_path
            (filter (\<lambda>child. kind (heap r child) = ''dir'')
               (children (heap r (last nodes_remaining)))) r = Some r'"
          by simp
        show ?thesis by (rule 1(1) [OF a b])
      qed
    next
      case False
      with ne 1(2) have a: "fd f dir_path (butlast nodes_remaining) r = Some r'"
        by simp
      from ne False unfolded have b: "find_directory f dir_path (butlast nodes_remaining) r = Some r'"
        by simp
      show ?thesis by (rule 1(1) [OF a b])
    qed
  qed
qed (rule assms)

lemma ext_attach_file: "attach_file f r = Some r' \<Longrightarrow> ext r r'"
  by (auto simp: attach_file_def ext_find_directory split: if_splits)

lemma ext_filePostProcess:
  assumes "filePostProcess r = Some r'"
  shows "ext r r'"
proof -
  from assms have "fold_option attach_file (files r) r = Some r'"
    by (simp add: filePostProcess_def)
  then show ?thesis
    by (rule ext_fold_option [rotated]) (rule ext_attach_file)
qed

subsection \<open>The file references keep the edges\<close>

lemma ext_scan_file: "ext r (scan_file scan f r)"
proof -
  have "ext r (case scan_location (scan (refid (heap r f))) of None \<Rightarrow> r
                | Some l \<Rightarrow> set_location f l r)"
    by (simp add: ext_set_location split: option.split)
  then show ?thesis
    unfolding scan_file_def Let_def
    by (rule ext_trans) (rule ext_set_program_listing)
qed

lemma ext_strip_location: "strip_location p f r = Inr r' \<Longrightarrow> ext r r'"
  by (auto simp: strip_location_def ext_set_location split: if_splits)

lemma ext_reparent_file_ref: "ext r (reparent_file_ref f child r)"
  by (simp add: reparent_file_ref_def ext_append_child ext_set_namespaces_used)

lemma ext_reparent_file_refs: "ext r (reparent_file_refs scan f r)"
  unfolding reparent_file_refs_def by (rule ext_fold) (rule ext_reparent_file_ref)

lemma ext_adopt_orphan: "ext r (adopt_orphan f orphan r)"
  by (simp add: adopt_orphan_def ext_append_child)

lemma ext_adopt_orphans: "ext r (adopt_orphans f r)"
  unfolding adopt_orphans_def by (rule ext_fold) (rule ext_adopt_orphan)

lemma ext_check_file_child: "ext r (check_file_child f c r)"
  by (simp add: check_file_child_def ext_set_def_in_file ext_exclaimError split: option.split)

lemma ext_check_file_children: "ext r (check_file_children f r)"
  unfolding check_file_children_def by (rule ext_fold) (rule ext_check_file_child)

lemma ext_check_files: "ext r (check_files r)"
  unfolding check_files_def by (rule ext_fold) (rule ext_check_file_children)

lemma ext_fileRefDiscovery:
  assumes a: "fileRefDiscovery is_dir scan strip r = Inr r'"
  shows "ext r r'"
proof (cases is_dir)
  case False
  with a show ?thesis by (auto simp: fileRefDiscovery_def ext_exclaimError)
next
  case True
  let ?r1 = "fold (scan_file scan) (files r) r"
  have e1: "ext r ?r1" by (rule ext_fold) (rule ext_scan_file)
  from a True obtain r2 where
    r2: "(case strip of None \<Rightarrow> Inr ?r1 | Some p \<Rightarrow> fold_err (strip_location p) (files r) ?r1) = Inr r2"
    and r': "r' = check_files (fold adopt_orphans (files r2)
                    (fold (reparent_file_refs scan) (files r2) r2))"
    by (auto simp: fileRefDiscovery_def split: sum.splits)
  have e2: "ext ?r1 r2"
  proof (cases strip)
    case None
    with r2 show ?thesis by simp
  next
    case (Some p)
    with r2 have "fold_err (strip_location p) (files r) ?r1 = Inr r2" by simp
    then show ?thesis by (rule ext_fold_err [rotated]) (rule ext_strip_location)
  qed
  have e3: "ext r2 (fold (reparent_file_refs scan) (files r2) r2)"
    by (rule ext_fold) (rule ext_reparent_file_refs)
  have e4: "ext (fold (reparent_file_refs scan) (files r2) r2)
              (fold adopt_orphans (files r2) (fold (reparent_file_refs scan) (files r2) r2))"
    by (rule ext_fold) (rule ext_adopt_orphans)
  have e5: "ext (fold adopt_orphans (files r2) (fold (reparent_file_refs scan) (files r2) r2)) r'"
    unfolding r' by (rule ext_check_files)
  from e1 e2 e3 e4 e5 show ?thesis by (blast intro: ext_trans)
qed

lemma ext_index_by_refid: "ext r (index_by_refid r)"
  unfolding index_by_refid_def by (rule ext_fold) (simp add: ext_def)

subsection \<open>Discovery keeps the edges\<close>

lemma ext_discover_innerclass: "ext r (discover_innerclass f tag r)"
  by (simp add: discover_innerclass_def ext_set_def_in_file ext_exclaimError split: option.split)

lemma ext_discover_memberdef: "ext r (discover_memberdef f tag r)"
  by (simp add: discover_memberdef_def ext_set_def_in_file split: option.split)

lemma ext_discover_file_cdef: "ext r (discover_file_cdef f cdef r)"
proof -
  let ?r1 = "fold (discover_innerclass f) (innerclasses cdef) r"
  let ?r2 = "fold (discover_memberdef f) (memberdefs cdef) ?r1"
  have "ext r ?r1" by (rule ext_fold) (rule ext_discover_innerclass)
  moreover have "ext ?r1 ?r2" by (rule ext_fold) (rule ext_discover_memberdef)
  moreover have "ext ?r2 (discover_file_cdef f cdef r)"
    by (simp add: discover_file_cdef_def Let_def ext_set_def_in_file_location)
  ultimately show ?thesis by (blast intro: ext_trans)
qed

lemma ext_discover_files: "ext r (discover_files xml fs r)"
proof (induction fs arbitrary: r)
  case Nil
  show ?case by simp
next
  case (Cons f fs)
  show ?case
  proof (cases "xml (refid (heap r f))")
    case NoContents
    then show ?thesis using Cons.IH [of r] by simp
  next
    case Unparsable
    then show ?thesis by (simp add: ext_exclaimError)
  next
    case (Parsed s)
    show ?thesis
    proof (cases s)
      case None
      have "ext r (set_soup f None r)" by (rule ext_set_soup)
      moreover have "ext (set_soup f None r) (discover_files xml fs (set_soup f None r))"
        by (rule Cons.IH)
      ultimately show ?thesis using Parsed None by (simp add: ext_trans [of r "set_soup f None r"])
    next
      case (Some cdef)
      let ?r1 = "discover_file_cdef f cdef (set_soup f (Some cdef) r)"
      have "ext r (set_soup f (Some cdef) r)" by (rule ext_set_soup)
      moreover have "ext (set_soup f (Some cdef) r) ?r1" by (rule ext_discover_file_cdef)
      moreover have "ext ?r1 (discover_files xml fs ?r1)" by (rule Cons.IH)
      ultimately have "ext r (discover_files xml fs ?r1)" by (blast intro: ext_trans)
      then show ?thesis using Parsed Some by simp
    qed
  qed
qed

lemma ext_discover_inner: "ext r (discover_inner nspace tag r)"
proof -
  have "ext r (set_parent node (Some nspace) (append_child nspace node r))" for node
    using ext_attach [of r nspace node] by (simp add: attach_def)
  then show ?thesis
    by (simp add: discover_inner_def split: option.split)
qed

lemma ext_assign_file_at: "assign_file_at filedef node fs r = Inr r' \<Longrightarrow> ext r r'"
proof (induction fs)
  case Nil
  then show ?case by simp
next
  case (Cons f fs)
  show ?case
  proof (cases "def_in_file_location (heap r f)")
    case None
    with Cons.prems show ?thesis by simp
  next
    case (Some l)
    show ?thesis
    proof (cases "Some filedef = l")
      case True
      let ?r1 = "set_def_in_file node (Some f) r"
      have "ext r ?r1" by (rule ext_set_def_in_file)
      moreover have "ext ?r1 (append_child f node ?r1)" by (rule ext_append_child)
      ultimately have "ext r (append_child f node ?r1)" by (rule ext_trans)
      with \<open>ext r ?r1\<close> Cons.prems Some True show ?thesis
        by (auto split: if_splits)
    next
      case False
      with Cons.prems Some have "assign_file_at filedef node fs r = Inr r'" by simp
      then show ?thesis by (rule Cons.IH)
    qed
  qed
qed

lemma ext_discover_section_member: "discover_section_member m r = Inr r' \<Longrightarrow> ext r r'"
  by (auto simp: discover_section_member_def ext_assign_file_at split: option.splits)

lemma ext_discover_namespace: "discover_namespace xml nspace r = Inr r' \<Longrightarrow> ext r r'"
proof -
  assume a: "discover_namespace xml nspace r = Inr r'"
  show ?thesis
  proof (cases "xml (refid (heap r nspace))")
    case NoContents
    with a show ?thesis by (simp add: discover_namespace_def)
  next
    case Unparsable
    with a show ?thesis by (simp add: discover_namespace_def)
  next
    case (Parsed s)
    show ?thesis
    proof (cases s)
      case None
      with a Parsed show ?thesis by (simp add: discover_namespace_def)
    next
      case (Some cdef)
      let ?r1 = "fold (discover_inner nspace) (innerclasses cdef) r"
      let ?r2 = "fold (discover_inner nspace) (innernamespaces cdef) ?r1"
      have "ext r ?r1" by (rule ext_fold) (rule ext_discover_inner)
      moreover have "ext ?r1 ?r2" by (rule ext_fold) (rule ext_discover_inner)
      moreover have "fold_err discover_section_member (concat (sectiondefs cdef)) ?r2 = Inr r'"
        using a Parsed Some by (simp add: discover_namespace_def)
      then have "ext ?r2 r'"
        by (rule ext_fold_err [rotated]) (rule ext_discover_section_member)
      ultimately show ?thesis by (blast intro: ext_trans)
    qed
  qed
qed

lemma ext_assign_single_candidate: "ext r (assign_single_candidate cands e r)"
  by (simp add: assign_single_candidate_def ext_set_def_in_file split: option.split)

lemma ext_resolve_missing_file_defs: "resolve_missing_file_defs r = Inr r' \<Longrightarrow> ext r r'"
proof -
  assume "resolve_missing_file_defs r = Inr r'"
  then obtain c where "r' = fold (assign_single_candidate c) (missing_file_def r) r"
    by (auto simp: resolve_missing_file_defs_def split: sum.splits)
  then show ?thesis
    by (simp add: ext_fold ext_assign_single_candidate)
qed




lemma disc_ok_new_node: "disc_ok r \<Longrightarrow> disc_ok (new_node nm kd rid r)"
  unfolding disc_ok_def edges_ok_def parents_allocated_def new_node_def ExhaleNode_init_def
  by (auto simp: less_Suc_eq)

lemma disc_ok_trackNodeIfUnseen: "disc_ok r \<Longrightarrow> disc_ok (trackNodeIfUnseen a r)"
  by (simp add: disc_ok_def edges_ok_def parents_allocated_def)

lemma disc_ok_link_namespace:
  "disc_ok r \<Longrightarrow> owner < nxt r \<Longrightarrow>
   disc_ok (append_child owner child (set_parent child (Some owner) r))"
  unfolding disc_ok_def edges_ok_def parents_allocated_def append_child_def set_parent_def
    set_children_def
  by auto

lemma disc_ok_link_file:
  "disc_ok r \<Longrightarrow> disc_ok (append_child owner child (set_def_in_file child (Some owner) r))"
  unfolding disc_ok_def edges_ok_def parents_allocated_def append_child_def set_def_in_file_def
    set_children_def
  by auto

lemma nxt_append_child [simp]: "nxt (append_child p c r) = nxt r"
  by (simp add: append_child_def set_children_def)

lemma nxt_set_parent [simp]: "nxt (set_parent a p r) = nxt r"
  by (simp add: set_parent_def)

lemma nxt_set_def_in_file [simp]: "nxt (set_def_in_file a p r) = nxt r"
  by (simp add: set_def_in_file_def)

lemma nxt_new_node [simp]: "nxt (new_node nm kd rid r) = Suc (nxt r)"
  by (simp add: new_node_def)

lemma discover_member_ok:
  assumes "disc_ok r" and "owner < nxt r"
  shows "disc_ok (discover_member k owner m r) \<and> nxt r \<le> nxt (discover_member k owner m r)"
proof (cases "member_name m")
  case None
  with assms show ?thesis by (simp add: discover_member_def)
next
  case n: (Some nm)
  show ?thesis
  proof (cases "member_kind m")
    case None
    with assms n show ?thesis by (simp add: discover_member_def)
  next
    case k: (Some kd)
    show ?thesis
    proof (cases "member_refid m")
      case None
      with assms n k show ?thesis by (simp add: discover_member_def)
    next
      case (Some rid)
      let ?r2 = "trackNodeIfUnseen (nxt r) (new_node nm kd rid r)"
      have ok2: "disc_ok ?r2"
        using assms(1) by (simp add: disc_ok_new_node disc_ok_trackNodeIfUnseen)
      have lt: "owner < nxt ?r2" using assms(2) by simp
      have "disc_ok (append_child owner (nxt r) (set_parent (nxt r) (Some owner) ?r2))"
        using ok2 lt by (rule disc_ok_link_namespace)
      moreover have "disc_ok (append_child owner (nxt r) (set_def_in_file (nxt r) (Some owner) ?r2))"
        using ok2 by (rule disc_ok_link_file)
      ultimately show ?thesis
        using n k Some by (simp add: discover_member_def Let_def)
    qed
  qed
qed

lemma fold_discover_member_ok:
  assumes "disc_ok r" and "owner < nxt r"
  shows "disc_ok (fold (discover_member k owner) ms r)"
  using assms
proof (induction ms arbitrary: r)
  case Nil
  then show ?case by simp
next
  case (Cons m ms)
  from discover_member_ok [OF Cons.prems, of k m]
  have "disc_ok (discover_member k owner m r)" "owner < nxt (discover_member k owner m r)"
    using Cons.prems(2) by auto
  then show ?case using Cons.IH by simp
qed

lemma discover_compound_ok:
  assumes "disc_ok r"
  shows "disc_ok (discover_compound c r)"
proof (cases "compound_name c")
  case None
  with assms show ?thesis by (simp add: discover_compound_def)
next
  case n: (Some nm)
  show ?thesis
  proof (cases "compound_kind c")
    case None
    with assms n show ?thesis by (simp add: discover_compound_def)
  next
    case k: (Some kd)
    show ?thesis
    proof (cases "compound_refid c")
      case None
      with assms n k show ?thesis by (simp add: discover_compound_def)
    next
      case (Some rid)
      let ?r2 = "trackNodeIfUnseen (nxt r) (new_node nm kd rid r)"
      have ok2: "disc_ok ?r2"
        using assms by (simp add: disc_ok_new_node disc_ok_trackNodeIfUnseen)
      have lt: "nxt r < nxt ?r2" by simp
      have "disc_ok (fold (discover_member kd (nxt r)) (compound_members c) ?r2)"
        using ok2 lt by (rule fold_discover_member_ok)
      with ok2 show ?thesis
        using n k Some by (simp add: discover_compound_def Let_def)
    qed
  qed
qed

lemma discover_compounds_ok: "disc_ok r \<Longrightarrow> disc_ok (discover_compounds cs r)"
  unfolding discover_compounds_def
  by (induction cs arbitrary: r) (simp_all add: discover_compound_ok)

lemma edges_ok_discoverAllNodes:
  assumes "edges_ok r" and "parents_allocated r" and "discoverAllNodes idx xml r = Inr r'"
  shows "edges_ok r'"
proof -
  from assms(3) obtain cs r3 where
    s: "idx = Some cs"
       "fold_err (discover_namespace xml)
          (namespaces (discover_files xml (files (discover_compounds cs r)) (discover_compounds cs r)))
          (discover_files xml (files (discover_compounds cs r)) (discover_compounds cs r)) = Inr r3"
       "resolve_missing_file_defs r3 = Inr r'"
    by (auto simp: discoverAllNodes_def discover_index_def split: option.splits sum.splits)
  let ?r1 = "discover_compounds cs r"
  let ?r2 = "discover_files xml (files ?r1) ?r1"
  have ok1: "edges_ok ?r1"
    using discover_compounds_ok [of r cs] assms(1,2) by (simp add: disc_ok_def)
  have "ext ?r1 ?r2" by (rule ext_discover_files)
  also have "ext ?r2 r3"
    using s(2) by (rule ext_fold_err [rotated]) (rule ext_discover_namespace)
  also have "ext r3 r'" using s(3) by (rule ext_resolve_missing_file_defs)
  finally have "ext ?r1 r'" .
  with ok1 show ?thesis by (rule ext_edges_ok)
qed

lemma edges_ok_parse:
  assumes "edges_ok r" and "parents_allocated r" and "parse inp r = Some (Inr r')"
  shows "edges_ok r'"
proof -
  from assms(3) obtain r1 r2 r3 r4 where
    s: "discoverAllNodes (input_index inp) (input_xml inp) r = Inr r1"
       "reparentAll r1 = Inr r2"
       "fileRefDiscovery (input_is_dir inp) (input_scan inp) (input_strip inp) (index_by_refid r2) = Inr r3"
       "filePostProcess r3 = Some r4"
       "sortInternals (input_limit inp) r4 = Inr r'"
    by (auto simp: parse_def split: sum.splits option.splits)
  have ok1: "edges_ok r1" using assms(1,2) s(1) by (rule edges_ok_discoverAllNodes)
  have "ext r1 r2" using s(2) by (rule ext_reparentAll)
  also have "ext r2 (index_by_refid r2)" by (rule ext_index_by_refid)
  also have "ext (index_by_refid r2) r3" using s(3) by (rule ext_fileRefDiscovery)
  also have "ext r3 r4" using s(4) by (rule ext_filePostProcess)
  also have "ext r4 r'" using s(5) by (rule ext_sortInternals)
  finally have "ext r1 r'" .
  with ok1 show ?thesis by (rule ext_edges_ok)
qed

subsection \<open>The reparenting passes return\<close>

text \<open>
  The only statement of the reparenting passes that can raise is \<open>list.remove\<close>, in
  the loops that take the reparented nodes out of the top-level lists.  Every node in
  a list of removals was taken from the top-level list it is removed from, no more often
  than it occurs there, so no removal fails.
\<close>

lemma count_list_remove1_if:
  "count_list (remove1 y xs) x = (if x = y \<and> y \<in> set xs then count_list xs x - 1 else count_list xs x)"
  by (induction xs) auto

lemma count_list_pos: "x \<in> set xs \<Longrightarrow> 0 < count_list xs x"
  by (induction xs) auto

lemma remove_each_returns:
  assumes "\<forall>x. count_list rs x \<le> count_list xs x"
  shows "\<not> isl (remove_each rs xs)"
  using assms
proof (induction rs arbitrary: xs)
  case Nil
  show ?case by simp
next
  case (Cons r rs)
  from Cons.prems have "count_list (r # rs) r \<le> count_list xs r" by blast
  then have "0 < count_list xs r" by simp
  then have mem: "r \<in> set xs"
    by (cases "r \<in> set xs") (simp_all add: count_notin)
  have "\<forall>x. count_list rs x \<le> count_list (remove1 r xs) x"
  proof
    fix x
    from Cons.prems have "count_list (r # rs) x \<le> count_list xs x" by blast
    then show "count_list rs x \<le> count_list (remove1 r xs) x"
      using mem by (auto simp: count_list_remove1_if split: if_splits)
  qed
  from Cons.IH [OF this] mem show ?case
    by (simp add: list_remove_def)
qed

lemma count_list_distinct: "distinct xs \<Longrightarrow> count_list xs x \<le> 1"
  by (induction xs) (auto simp: count_notin)

lemma remove_each_returns_distinct:
  assumes "distinct rs" and "set rs \<subseteq> set xs"
  shows "\<not> isl (remove_each rs xs)"
proof (rule remove_each_returns, rule allI)
  fix x
  show "count_list rs x \<le> count_list xs x"
  proof (cases "x \<in> set rs")
    case True
    from assms(1) have "count_list rs x \<le> 1" by (rule count_list_distinct)
    moreover from True assms(2) have "0 < count_list xs x" by (auto intro: count_list_pos)
    ultimately show ?thesis by simp
  next
    case False
    then show ?thesis by (simp add: count_notin)
  qed
qed

lemma reparent_union_removals:
  "unions (fst (reparent_union u (s, rem))) = unions s
   \<and> (snd (reparent_union u (s, rem)) = rem \<or> snd (reparent_union u (s, rem)) = rem @ [u])"
  by (simp add: Let_def attach_def set_parent_def append_child_def set_children_def
      split: option.split)

lemma fold_reparent_union_removals:
  "unions (fst (fold reparent_union us (s, rem))) = unions s
   \<and> (\<forall>x. count_list (snd (fold reparent_union us (s, rem))) x
            \<le> count_list rem x + count_list us x)"
proof (induction us arbitrary: s rem)
  case Nil
  show ?case by simp
next
  case (Cons u us)
  obtain s1 rem1 where st: "reparent_union u (s, rem) = (s1, rem1)"
    by (cases "reparent_union u (s, rem)")
  from reparent_union_removals [of u s rem] st
  have 1: "unions s1 = unions s" "rem1 = rem \<or> rem1 = rem @ [u]" by simp_all
  from Cons.IH [of s1 rem1]
  have 2: "unions (fst (fold reparent_union us (s1, rem1))) = unions s1"
    "\<forall>x. count_list (snd (fold reparent_union us (s1, rem1))) x
            \<le> count_list rem1 x + count_list us x" by simp_all
  have "count_list rem1 x + count_list us x \<le> count_list rem x + count_list (u # us) x" for x
    using 1(2) by auto
  with 2(2) have "\<forall>x. count_list (snd (fold reparent_union us (s1, rem1))) x
            \<le> count_list rem x + count_list (u # us) x"
    by (meson le_trans)
  with 1(1) 2(1) show ?case
    by (simp only: fold_simps st) simp
qed

lemma reparentUnions_returns: "\<not> isl (reparentUnions r)"
proof -
  let ?st = "fold reparent_union (unions r) (r, [])"
  from fold_reparent_union_removals [of "unions r" r "[]"]
  have "unions (fst ?st) = unions r" "\<forall>x. count_list (snd ?st) x \<le> count_list (unions r) x"
    by simp_all
  then have "\<not> isl (remove_each (snd ?st) (unions (fst ?st)))"
    by (simp add: remove_each_returns)
  then show ?thesis
    unfolding reparentUnions_def Let_def
    by (cases "remove_each (snd ?st) (unions (fst ?st))") simp_all
qed

lemma reparent_dirs_loop_removals:
  assumes "distinct rem" and "set rem \<subseteq> S" and "snd ` set xs \<subseteq> S"
  shows "dirs (fst (reparent_dirs_loop t xs (s, rem))) = dirs s
     \<and> distinct (snd (reparent_dirs_loop t xs (s, rem)))
     \<and> set (snd (reparent_dirs_loop t xs (s, rem))) \<subseteq> S"
  using assms
proof (induction xs arbitrary: s rem)
  case Nil
  then show ?case by simp
next
  case (Cons p xs)
  obtain rank d where p: "p = (rank, d)" by (cases p)
  from Cons.prems p have d: "d \<in> S" and rest: "snd ` set xs \<subseteq> S" by auto
  show ?case
  proof (cases "rank < 2")
    case True
    with p Cons.prems show ?thesis by simp
  next
    case False
    show ?thesis
    proof (cases "find (\<lambda>q. fst q = rank - 1
             \<and> name (heap s (snd q)) = dir_parent_name (heap s) d) t")
      case None
      with False p Cons.IH [OF Cons.prems(1,2) rest, of s] show ?thesis by simp
    next
      case (Some q)
      let ?rem = "if d \<notin> set rem then rem @ [d] else rem"
      have "distinct ?rem" "set ?rem \<subseteq> S" using Cons.prems(1,2) d by auto
      from Cons.IH [OF this rest, of "attach (snd q) d s"]
      have "dirs (fst (reparent_dirs_loop t xs (attach (snd q) d s, ?rem))) = dirs s
          \<and> distinct (snd (reparent_dirs_loop t xs (attach (snd q) d s, ?rem)))
          \<and> set (snd (reparent_dirs_loop t xs (attach (snd q) d s, ?rem))) \<subseteq> S"
        by (simp add: attach_def set_parent_def append_child_def set_children_def)
      with False p Some show ?thesis by simp
    qed
  qed
qed

lemma reparentDirectories_returns: "\<not> isl (reparentDirectories r)"
proof -
  define t where "t = rev (list_sort (rank_lt (heap r)) (map (dir_rank (heap r)) (dirs r)))"
  have "snd ` set t \<subseteq> set (dirs r)"
    by (auto simp: t_def dir_rank_def)
  from reparent_dirs_loop_removals [of "[]" "set (dirs r)" t t r, OF _ _ this]
  have "dirs (fst (reparent_dirs_loop t t (r, []))) = dirs r"
    "distinct (snd (reparent_dirs_loop t t (r, [])))"
    "set (snd (reparent_dirs_loop t t (r, []))) \<subseteq> set (dirs r)"
    by simp_all
  then have "\<not> isl (remove_each (snd (reparent_dirs_loop t t (r, [])))
                     (dirs (fst (reparent_dirs_loop t t (r, [])))))"
    by (simp add: remove_each_returns_distinct)
  then show ?thesis
    unfolding reparentDirectories_def Let_def t_def [symmetric]
    by (cases "remove_each (snd (reparent_dirs_loop t t (r, [])))
                     (dirs (fst (reparent_dirs_loop t t (r, []))))") simp_all
qed

lemma fold_collect_nested_namespace_removals:
  assumes "distinct rem" and "set rem \<subseteq> S" and "set ns \<subseteq> S"
  shows "distinct (fold (collect_nested_namespace r) ns rem)
     \<and> set (fold (collect_nested_namespace r) ns rem) \<subseteq> S"
  using assms
proof (induction ns arbitrary: rem)
  case Nil
  then show ?case by simp
next
  case (Cons n ns)
  have "distinct (collect_nested_namespace r n rem)" "set (collect_nested_namespace r n rem) \<subseteq> S"
    using Cons.prems by (auto simp: collect_nested_namespace_def split: option.split)
  from Cons.IH [OF this] Cons.prems(3) show ?case by simp
qed

lemma reparentNamespaces_returns: "\<not> isl (reparentNamespaces r)"
proof -
  from fold_collect_nested_namespace_removals [of "[]" "set (namespaces r)" "namespaces r" r]
  have "\<not> isl (remove_each (fold (collect_nested_namespace r) (namespaces r) []) (namespaces r))"
    by (simp add: remove_each_returns_distinct)
  then show ?thesis
    unfolding reparentNamespaces_def Let_def
    by (cases "remove_each (fold (collect_nested_namespace r) (namespaces r) []) (namespaces r)")
      simp_all
qed

lemma reparentAll_returns: "\<not> isl (reparentAll r)"
proof -
  obtain r1 where r1: "reparentUnions r = Inr r1"
    using reparentUnions_returns [of r] by (cases "reparentUnions r") auto
  obtain r3 where r3: "reparentDirectories (reparentClassLike r1) = Inr r3"
    using reparentDirectories_returns [of "reparentClassLike r1"]
    by (cases "reparentDirectories (reparentClassLike r1)") auto
  obtain r5 where r5: "reparentNamespaces (renameToNamespaceScopes r3) = Inr r5"
    using reparentNamespaces_returns [of "renameToNamespaceScopes r3"]
    by (cases "reparentNamespaces (renameToNamespaceScopes r3)") auto
  show ?thesis by (simp add: reparentAll_def r1 r3 r5)
qed

lemma edges_ok_init: "edges_ok ExhaleRoot_init \<and> parents_allocated ExhaleRoot_init"
  by (simp add: edges_ok_def parents_allocated_def ExhaleRoot_init_def ExhaleNode_init_def)

lemma attach_links:
  "parent (heap (attach p c r) c) = Some p \<and> c \<in> set (children (heap (attach p c r) p))"
  by (simp add: attach_def set_parent_def append_child_def set_children_def)

text \<open>
  Claim C10.  The empty root has consistent edges.  The pair of statements that assigns
  a parent, \<open>attach\<close>, also appends the node to the children of the new parent.  From
  a root with consistent edges every pass that returns leaves a root with consistent
  edges: \<open>discoverAllNodes\<close> (for a root whose parents have been created), the five
  reparenting passes, the removal of duplicate children, \<open>reparentAll\<close>, the filing
  by refid, \<open>fileRefDiscovery\<close>, \<open>filePostProcess\<close>, \<open>sortInternals\<close>, and \<open>parse\<close> as
  a whole.  The reparenting passes, and \<open>reparentAll\<close> as a whole, return from every
  root.
\<close>

theorem parent_is_among_children:
  "edges_ok ExhaleRoot_init \<and> parents_allocated ExhaleRoot_init
   \<and> parent (heap (attach p c r) c) = Some p \<and> c \<in> set (children (heap (attach p c r) p))
   \<and> (edges_ok r \<longrightarrow>
        (parents_allocated r \<and> discoverAllNodes idx xml r = Inr r1 \<longrightarrow> edges_ok r1)
        \<and> (reparentUnions r = Inr r2 \<longrightarrow> edges_ok r2)
        \<and> edges_ok (reparentClassLike r)
        \<and> (reparentDirectories r = Inr r3 \<longrightarrow> edges_ok r3)
        \<and> edges_ok (renameToNamespaceScopes r)
        \<and> (reparentNamespaces r = Inr r4 \<longrightarrow> edges_ok r4)
        \<and> edges_ok (fold dedup_children (all_nodes r) r)
        \<and> (reparentAll r = Inr r5 \<longrightarrow> edges_ok r5)
        \<and> edges_ok (index_by_refid r)
        \<and> (fileRefDiscovery is_dir scan strip r = Inr r6 \<longrightarrow> edges_ok r6)
        \<and> (filePostProcess r = Some r7 \<longrightarrow> edges_ok r7)
        \<and> (sortInternals limit r = Inr r8 \<longrightarrow> edges_ok r8)
        \<and> (parents_allocated r \<and> parse inp r = Some (Inr r9) \<longrightarrow> edges_ok r9))
   \<and> \<not> isl (reparentUnions r) \<and> \<not> isl (reparentDirectories r)
   \<and> \<not> isl (reparentNamespaces r) \<and> \<not> isl (reparentAll r)"
proof -
  have "edges_ok (fold dedup_children (all_nodes r) r)" if "edges_ok r"
    using that by (rule ext_edges_ok) (rule ext_fold, rule ext_dedup_children)
  then show ?thesis
    using edges_ok_init attach_links [of p c r]
      edges_ok_discoverAllNodes [of r idx xml r1]
      ext_edges_ok [OF _ ext_reparentUnions, of r r2]
      ext_edges_ok [OF _ ext_reparentClassLike, of r]
      ext_edges_ok [OF _ ext_reparentDirectories, of r r3]
      ext_edges_ok [OF _ ext_renameToNamespaceScopes, of r]
      ext_edges_ok [OF _ ext_reparentNamespaces, of r r4]
      ext_edges_ok [OF _ ext_reparentAll, of r r5]
      ext_edges_ok [OF _ ext_index_by_refid, of r]
      ext_edges_ok [OF _ ext_fileRefDiscovery, of r is_dir scan strip r6]
      ext_edges_ok [OF _ ext_filePostProcess, of r r7]
      ext_edges_ok [OF _ ext_sortInternals, of r limit r8]
      edges_ok_parse [of r inp r9]
      reparentUnions_returns [of r] reparentDirectories_returns [of r]
      reparentNamespaces_returns [of r] reparentAll_returns [of r]
    by blast
qed

theorem parent_is_among_children_witness:
  "edges_ok (projr (the (parse pipeline_input ExhaleRoot_init)))
   \<and> parent (heap (projr (the (parse pipeline_input ExhaleRoot_init))) 4) = Some 3
   \<and> parent (heap (projr (the (parse pipeline_input ExhaleRoot_init))) 1) = Some 0
   \<and> children (heap (projr (the (parse pipeline_input ExhaleRoot_init))) 0) = [1]"
proof -
  have "\<exists>r'. parse pipeline_input ExhaleRoot_init = Some (Inr r')"
    by (simp add: pipeline_input_def pipeline_cdef_def pipeline_defs discover_defs store_defs
        reparent_defs cong: let_weak_cong)
  then have run: "parse pipeline_input ExhaleRoot_init
      = Some (Inr (projr (the (parse pipeline_input ExhaleRoot_init))))"
    by auto
  have "edges_ok (projr (the (parse pipeline_input ExhaleRoot_init)))"
    using parent_is_among_children [of 0 0 ExhaleRoot_init None "\<lambda>_. NoContents"
        ExhaleRoot_init ExhaleRoot_init ExhaleRoot_init ExhaleRoot_init ExhaleRoot_init
        False "\<lambda>_. \<lparr> scan_location = None, scan_refids = [], scan_program_listing = [] \<rparr>"
        None ExhaleRoot_init ExhaleRoot_init 0 ExhaleRoot_init pipeline_input
        "projr (the (parse pipeline_input ExhaleRoot_init))"] run
    by blast
  moreover have "parent (heap (projr (the (parse pipeline_input ExhaleRoot_init))) 4) = Some 3
    \<and> parent (heap (projr (the (parse pipeline_input ExhaleRoot_init))) 1) = Some 0
    \<and> children (heap (projr (the (parse pipeline_input ExhaleRoot_init))) 0) = [1]"
    by (simp add: pipeline_input_def pipeline_cdef_def pipeline_defs discover_defs store_defs
        reparent_defs cong: let_weak_cong)
  ultimately show ?thesis by blast
qed

section \<open>Running the reparenting passes again\<close>

lemma same_graph_refl [simp]: "same_graph r r"
  by (simp add: same_graph_def)

lemma same_graph_trans [trans]: "same_graph r r' \<Longrightarrow> same_graph r' r'' \<Longrightarrow> same_graph r r''"
  by (simp add: same_graph_def)

lemma same_graph_lists:
  assumes "same_graph r s"
  shows "class_like s = class_like r" "namespaces s = namespaces r" "unions s = unions r"
    "dirs s = dirs r" "all_nodes s = all_nodes r"
  using assms by (simp_all add: same_graph_def top_level_def)

lemma same_graph_fields:
  assumes "same_graph r s"
  shows "name (heap s a) = name (heap r a)" "kind (heap s a) = kind (heap r a)"
    "parent (heap s a) = parent (heap r a)"
    "set (children (heap s a)) = set (children (heap r a))"
  using assms by (simp_all add: same_graph_def)

lemma union_class_match_cong:
  assumes "same_graph r s"
  shows "union_class_match s u = union_class_match r u"
  unfolding union_class_match_def same_graph_fields(1) [OF assms] same_graph_lists(1) [OF assms] ..

lemma union_namespace_match_cong:
  assumes "same_graph r s"
  shows "union_namespace_match s u = union_namespace_match r u"
  unfolding union_namespace_match_def same_graph_fields(1) [OF assms] same_graph_lists(2) [OF assms] ..

lemma class_parent_match_cong:
  assumes "same_graph r s"
  shows "class_parent_match s u = class_parent_match r u"
  unfolding class_parent_match_def same_graph_fields(1) [OF assms] same_graph_lists(1) [OF assms] ..

lemma reparent_union_eq:
  "reparent_union u (s, rem) =
     (case union_class_match s u of
        Some cl \<Rightarrow> (attach cl u s, rem @ [u])
      | None \<Rightarrow>
         (case union_namespace_match s u of
            Some n \<Rightarrow> (attach n u s, rem)
          | None \<Rightarrow> (s, rem)))"
  by (simp add: union_class_match_def union_namespace_match_def Let_def split: option.split)

lemma reparent_class_eq:
  "reparent_class cl (s, rem) =
     (case class_parent_match s cl of
        Some parent_cl \<Rightarrow> (attach parent_cl cl s, rem @ [cl])
      | None \<Rightarrow> (s, rem))"
  by (simp add: class_parent_match_def Let_def split: option.split)

lemma same_graph_attach_present:
  assumes "parent (heap s u) = Some n" and "u \<in> set (children (heap s n))"
  shows "same_graph s (attach n u s)"
  using assms
  by (auto simp: same_graph_def attach_def set_parent_def append_child_def set_children_def
      top_level_def)


lemma dir_has_parent_cong:
  assumes "same_graph r s"
  shows "dir_has_parent s d = dir_has_parent r d"
  unfolding dir_has_parent_def dir_rank_def dir_parent_name_def
    same_graph_fields(1) [OF assms] same_graph_lists(4) [OF assms] ..

lemma namespace_nested_cong:
  assumes "same_graph r s"
  shows "namespace_nested s n = namespace_nested r n"
  unfolding namespace_nested_def same_graph_fields(2,3) [OF assms] ..

lemma settled_cong:
  assumes sg: "same_graph r s" and "settled r"
  shows "settled s"
proof -
  note f = same_graph_fields [OF sg] and l = same_graph_lists [OF sg]
  from \<open>settled r\<close> show ?thesis
    unfolding settled_def list_all_iff
      union_class_match_cong [OF sg] union_namespace_match_cong [OF sg]
      class_parent_match_cong [OF sg] dir_has_parent_cong [OF sg]
      namespace_nested_cong [OF sg] f l .
qed

lemma fold_reparent_union_settled:
  assumes "\<forall>u \<in> set us. union_class_match r u = None
             \<and> (case union_namespace_match r u of
                   None \<Rightarrow> True
                 | Some n \<Rightarrow> parent (heap r u) = Some n \<and> u \<in> set (children (heap r n)))"
      and "same_graph r s"
  shows "\<exists>s'. fold reparent_union us (s, []) = (s', []) \<and> same_graph r s'"
  using assms
proof (induction us arbitrary: s)
  case Nil
  then show ?case by simp
next
  case (Cons u us)
  have cm: "union_class_match s u = None"
    using Cons.prems by (simp add: union_class_match_cong)
  have "\<exists>s1. reparent_union u (s, []) = (s1, []) \<and> same_graph r s1"
  proof (cases "union_namespace_match r u")
    case None
    then have "union_namespace_match s u = None"
      using Cons.prems(2) by (simp add: union_namespace_match_cong)
    with cm Cons.prems(2) show ?thesis by (simp add: reparent_union_eq del: reparent_union.simps)
  next
    case (Some n)
    then have nm: "union_namespace_match s u = Some n"
      using Cons.prems(2) by (simp add: union_namespace_match_cong)
    from Some Cons.prems(1) have "parent (heap r u) = Some n" "u \<in> set (children (heap r n))"
      by simp_all
    then have "parent (heap s u) = Some n" "u \<in> set (children (heap s n))"
      using same_graph_fields(3,4) [OF Cons.prems(2)] by simp_all
    then have "same_graph s (attach n u s)" by (rule same_graph_attach_present)
    with Cons.prems(2) have "same_graph r (attach n u s)" by (rule same_graph_trans)
    with cm nm show ?thesis by (simp add: reparent_union_eq del: reparent_union.simps)
  qed
  then obtain s1 where s1: "reparent_union u (s, []) = (s1, [])" "same_graph r s1" by blast
  have rest: "\<forall>u \<in> set us. union_class_match r u = None
             \<and> (case union_namespace_match r u of
                   None \<Rightarrow> True
                 | Some n \<Rightarrow> parent (heap r u) = Some n \<and> u \<in> set (children (heap r n)))"
    using Cons.prems(1) by simp
  from Cons.IH [OF rest s1(2)] s1(1) show ?case by simp
qed

lemma reparentUnions_settled:
  assumes "settled r"
  shows "\<exists>r1. reparentUnions r = Inr r1 \<and> same_graph r r1"
proof -
  from assms have "\<forall>u \<in> set (unions r). union_class_match r u = None
             \<and> (case union_namespace_match r u of
                   None \<Rightarrow> True
                 | Some n \<Rightarrow> parent (heap r u) = Some n \<and> u \<in> set (children (heap r n)))"
    by (simp add: settled_def list_all_iff)
  from fold_reparent_union_settled [OF this same_graph_refl]
  obtain s' where s': "fold reparent_union (unions r) (r, []) = (s', [])" "same_graph r s'"
    by blast
  have "s'\<lparr>unions := unions s'\<rparr> = s'" by simp
  with s' show ?thesis by (simp add: reparentUnions_def)
qed

lemma fold_reparent_class_settled:
  assumes "\<forall>cl \<in> set cls. class_parent_match r cl = None"
  shows "fold reparent_class cls (r, []) = (r, [])"
  using assms by (induction cls) (simp_all add: reparent_class_eq del: reparent_class.simps)

lemma reparentClassLike_settled:
  assumes "settled r"
  shows "reparentClassLike r = r"
proof -
  from assms have "\<forall>cl \<in> set (class_like r). class_parent_match r cl = None"
    by (simp add: settled_def list_all_iff)
  then have "fold reparent_class (class_like r) (r, []) = (r, [])"
    by (rule fold_reparent_class_settled)
  then show ?thesis by (simp add: reparentClassLike_def)
qed

lemma reparent_dirs_loop_settled:
  assumes "\<forall>p \<in> set xs. fst p \<ge> 2 \<longrightarrow>
             find (\<lambda>q. fst q = fst p - 1
                       \<and> name (heap r (snd q)) = dir_parent_name (heap r) (snd p)) t = None"
  shows "reparent_dirs_loop t xs (r, rem) = (r, rem)"
  using assms
proof (induction xs)
  case Nil
  show ?case by simp
next
  case (Cons p xs)
  obtain rank d where p: "p = (rank, d)" by (cases p)
  show ?case
  proof (cases "rank < 2")
    case True
    with p show ?thesis by simp
  next
    case False
    with Cons.prems p have "find (\<lambda>q. fst q = rank - 1
        \<and> name (heap r (snd q)) = dir_parent_name (heap r) d) t = None"
      by simp
    moreover have "reparent_dirs_loop t xs (r, rem) = (r, rem)"
      using Cons.prems by (intro Cons.IH) simp
    ultimately show ?thesis using False p by simp
  qed
qed

lemma reparentDirectories_settled:
  assumes "settled r"
  shows "reparentDirectories r = Inr r"
proof -
  define t where "t = rev (list_sort (rank_lt (heap r)) (map (dir_rank (heap r)) (dirs r)))"
  have set_t: "set t = dir_rank (heap r) ` set (dirs r)"
    by (simp add: t_def)
  from assms have q: "\<forall>d \<in> set (dirs r). \<not> dir_has_parent r d"
    by (simp add: settled_def list_all_iff)
  have "find (\<lambda>q. fst q = fst p - 1
                  \<and> name (heap r (snd q)) = dir_parent_name (heap r) (snd p)) t = None"
    if "p \<in> set t" "fst p \<ge> 2" for p
  proof -
    from that(1) set_t obtain d where d: "d \<in> set (dirs r)" "p = dir_rank (heap r) d" by auto
    with that(2) q have "\<not> list_ex (\<lambda>x. fst (dir_rank (heap r) x) = fst (dir_rank (heap r) d) - 1
                     \<and> name (heap r x) = dir_parent_name (heap r) d) (dirs r)"
      by (simp add: dir_has_parent_def)
    then have "\<forall>q \<in> set t. \<not> (fst q = fst p - 1
                  \<and> name (heap r (snd q)) = dir_parent_name (heap r) (snd p))"
      unfolding set_t d(2) list_ex_iff by (auto simp: dir_rank_def)
    then show ?thesis unfolding find_None_iff by blast
  qed
  then have "reparent_dirs_loop t t (r, []) = (r, [])"
    by (intro reparent_dirs_loop_settled) blast
  moreover have "r\<lparr>dirs := dirs r\<rparr> = r" by simp
  ultimately show ?thesis
    by (simp add: reparentDirectories_def Let_def t_def [symmetric])
qed

lemma fold_rename_child_settled:
  assumes "\<forall>c \<in> set cs. str_contains p (name (heap r c))"
  shows "fold (rename_child p) cs r = r"
  using assms by (induction cs) (simp_all add: rename_child_def)

lemma fold_rename_namespace_settled:
  assumes "\<forall>n \<in> set ns. \<forall>c \<in> set (children (heap r n)).
             str_contains (name (heap r n) @ ''::'') (name (heap r c))"
  shows "fold rename_namespace ns r = r"
  using assms
  by (induction ns) (simp_all add: rename_namespace_def Let_def fold_rename_child_settled)

lemma renameToNamespaceScopes_settled:
  assumes "settled r"
  shows "renameToNamespaceScopes r = r"
proof -
  from assms have "\<forall>n \<in> set (namespaces r). \<forall>c \<in> set (children (heap r n)).
             str_contains (name (heap r n) @ ''::'') (name (heap r c))"
    by (simp add: settled_def list_all_iff)
  then show ?thesis
    unfolding renameToNamespaceScopes_def by (rule fold_rename_namespace_settled)
qed

lemma fold_collect_nested_namespace_settled:
  assumes "\<forall>n \<in> set ns. \<not> namespace_nested r n"
  shows "fold (collect_nested_namespace r) ns [] = []"
  using assms
  by (induction ns)
     (auto simp: collect_nested_namespace_def namespace_nested_def split: option.splits)

lemma reparentNamespaces_settled:
  assumes "settled r"
  shows "reparentNamespaces r = Inr r"
proof -
  from assms have "\<forall>n \<in> set (namespaces r). \<not> namespace_nested r n"
    by (simp add: settled_def list_all_iff)
  then have "fold (collect_nested_namespace r) (namespaces r) [] = []"
    by (rule fold_collect_nested_namespace_settled)
  moreover have "r\<lparr>namespaces := namespaces r\<rparr> = r" by simp
  ultimately show ?thesis by (simp add: reparentNamespaces_def)
qed

lemma same_graph_dedup_children: "same_graph r (dedup_children a r)"
  by (simp add: same_graph_def dedup_children_def set_children_def list_of_set_def top_level_def)

lemma same_graph_fold_dedup_children: "same_graph r (fold dedup_children xs r)"
proof (induction xs arbitrary: r)
  case Nil
  show ?case by simp
next
  case (Cons x xs)
  have "same_graph r (dedup_children x r)" by (rule same_graph_dedup_children)
  also have "same_graph (dedup_children x r) (fold dedup_children xs (dedup_children x r))"
    by (rule Cons.IH)
  finally show ?case by simp
qed

text \<open>
  Claim C7, as the code has it.  On a settled graph the reparenting passes and the
  removal of duplicate children return, and they leave every per-kind list and the
  name, the parent and the set of children of every node as they were.
\<close>

theorem reparentAll_settled:
  assumes "settled r"
  shows "\<not> isl (reparentAll r)
     \<and> top_level (projr (reparentAll r)) = top_level r
     \<and> (\<forall>a. name (heap (projr (reparentAll r)) a) = name (heap r a)
            \<and> parent (heap (projr (reparentAll r)) a) = parent (heap r a)
            \<and> set (children (heap (projr (reparentAll r)) a)) = set (children (heap r a)))"
proof -
  from reparentUnions_settled [OF assms] obtain r1 where
    r1: "reparentUnions r = Inr r1" "same_graph r r1" by blast
  have s1: "settled r1" using r1(2) assms by (rule settled_cong)
  have res: "reparentAll r = Inr (fold dedup_children (all_nodes r1) r1)"
    by (simp add: reparentAll_def r1(1) reparentClassLike_settled [OF s1]
        reparentDirectories_settled [OF s1] renameToNamespaceScopes_settled [OF s1]
        reparentNamespaces_settled [OF s1])
  have "same_graph r1 (fold dedup_children (all_nodes r1) r1)"
    by (rule same_graph_fold_dedup_children)
  with r1(2) have "same_graph r (fold dedup_children (all_nodes r1) r1)"
    by (rule same_graph_trans)
  then show ?thesis
    by (simp add: res same_graph_def)
qed

theorem reparentAll_settled_witness:
  "settled settled_root
   \<and> \<not> isl (reparentAll settled_root)
   \<and> top_level (projr (reparentAll settled_root)) = top_level settled_root
   \<and> parent (heap (projr (reparentAll settled_root)) 2) = Some 0"
proof -
  have st: "settled settled_root"
    by (simp add: settled_root_def nested_union_index_def settled_defs discover_defs store_defs
        reparent_defs cong: let_weak_cong)
  have p: "parent (heap settled_root 2) = Some 0"
    by (simp add: settled_root_def nested_union_index_def discover_defs store_defs
        reparent_defs cong: let_weak_cong)
  from reparentAll_settled [OF st] have
    "\<not> isl (reparentAll settled_root)"
    "top_level (projr (reparentAll settled_root)) = top_level settled_root"
    "parent (heap (projr (reparentAll settled_root)) 2) = parent (heap settled_root 2)"
    by blast+
  with st p show ?thesis by simp
qed

text \<open>
  The claim as stated fails on the graph that discovery builds for
  \<open>nested_namespace_index\<close>.  The first run attaches the union (node 2) to the
  namespace \<open>A::B\<close> (node 0), which is the first namespace that matches, and then takes
  \<open>A::B\<close> out of the top-level namespaces; the second run finds only the namespace
  \<open>A\<close> (node 1) and attaches the union to it.
\<close>

theorem reparentAll_not_idempotent:
  "namespaces nested_namespace_root = [0, 1]
   \<and> parent (heap nested_namespace_root 0) = Some 1
   \<and> \<not> isl (reparentAll nested_namespace_root)
   \<and> \<not> isl (reparentAll (projr (reparentAll nested_namespace_root)))
   \<and> parent (heap (projr (reparentAll nested_namespace_root)) 2) = Some 0
   \<and> parent (heap (projr (reparentAll (projr (reparentAll nested_namespace_root)))) 2) = Some 1
   \<and> 2 \<notin> set (children (heap (projr (reparentAll nested_namespace_root)) 1))
   \<and> 2 \<in> set (children (heap (projr (reparentAll (projr (reparentAll nested_namespace_root)))) 1))"
  by (simp add: nested_namespace_root_def nested_namespace_index_def nested_namespace_xml_def
      pipeline_defs discover_defs store_defs reparent_defs cong: let_weak_cong)

end
